theory Spec2Isabelle
  imports Complex_Main "HOL-Library.Sublist"
begin

section \<open>Python strings\<close>

text \<open>
  A Python \<open>str\<close> is modelled as a \<open>string\<close>: a list of 8-bit characters, read as
  the code points below 256. \<open>py_isspace\<close> is the set of those code points that
  \<open>str.strip()\<close>, \<open>str.isspace()\<close> and the regular expression class \<open>\s\<close> treat
  as whitespace.
\<close>

definition whitespace_chars :: "char list" where
  "whitespace_chars =
     [CHR 0x09, CHR 0x0A, CHR 0x0B, CHR 0x0C, CHR 0x0D, CHR 0x1C, CHR 0x1D, CHR 0x1E,
      CHR 0x1F, CHR 0x20, CHR 0x85, CHR 0xA0]"

definition py_isspace :: "char \<Rightarrow> bool" where
  "py_isspace c \<longleftrightarrow> c \<in> set whitespace_chars"

definition strip :: "string \<Rightarrow> string" where
  "strip s = rev (dropWhile py_isspace (rev (dropWhile py_isspace s)))"

text \<open>\<open>s.replace(' ', '')\<close>: only the space character U+0020 is removed.\<close>

definition remove_spaces :: "string \<Rightarrow> string" where
  "remove_spaces s = filter (\<lambda>c. c \<noteq> CHR 0x20) s"

text \<open>Python truthiness of a string, and of an optional string (\<open>None\<close> is falsy).\<close>

definition truthy :: "string option \<Rightarrow> bool" where
  "truthy t = (case t of None \<Rightarrow> False | Some s \<Rightarrow> s \<noteq> [])"

section \<open>Query construction (app/scraper.py)\<close>

definition formula_alphabet :: "char list" where
  "formula_alphabet = ''0123456789CHONPS()[]+-=''"

definition smiles_markers :: "char list" where
  "smiles_markers = [CHR ''@'', CHR ''/'', CHR 0x5C]"

definition dquote :: char where
  "dquote = CHR 0x22"

text \<open>
  The three branches of the \<open>if / elif / else\<close> of \<open>_build_molecule_query\<close>, named.
  The source has no such value: it sets \<open>query_field\<close> and \<open>query\<close> in each
  branch. \<open>detect_input\<close> is applied to the molecule after \<open>strip()\<close>.
\<close>

datatype input_kind = Formula | Smiles | Name

definition detect_input :: "string \<Rightarrow> input_kind" where
  "detect_input molecule =
     (if list_all (\<lambda>c. c \<in> set formula_alphabet) (remove_spaces molecule) then Formula
      else if list_ex (\<lambda>c. c \<in> set molecule) smiles_markers then Smiles
      else Name)"

definition build_molecule_query :: "string \<Rightarrow> string \<Rightarrow> string" where
  "build_molecule_query molecule0 search_type =
     (let molecule = strip molecule0;
          (query_field, query) =
             (case detect_input molecule of
                Formula \<Rightarrow> (''EN_AB'', [dquote] @ molecule @ [dquote])
              | Smiles \<Rightarrow> (''EN_AB'', [dquote] @ molecule @ [dquote])
              | Name \<Rightarrow> (''EN_ALL'', molecule))
      in query_field @ '':('' @ query @ '')'')"

text \<open>The branch that \<open>_build_molecule_query\<close> takes on a raw input.\<close>

definition classify :: "string \<Rightarrow> input_kind" where
  "classify molecule0 = detect_input (strip molecule0)"

text \<open>The claim's own reading of the three classes, on the characters of a string.\<close>

definition in_formula_alphabet :: "string \<Rightarrow> bool" where
  "in_formula_alphabet s \<longleftrightarrow> (\<forall>c \<in> set s. c = CHR 0x20 \<or> c \<in> set formula_alphabet)"

definition has_smiles_marker :: "string \<Rightarrow> bool" where
  "has_smiles_marker s \<longleftrightarrow> CHR ''@'' \<in> set s \<or> CHR ''/'' \<in> set s \<or> CHR 0x5C \<in> set s"

definition restricted_query :: "string \<Rightarrow> string" where
  "restricted_query s = ''EN_AB:('' @ [dquote] @ s @ [dquote] @ '')''"

definition all_fields_query :: "string \<Rightarrow> string" where
  "all_fields_query s = ''EN_ALL:('' @ s @ '')''"

section \<open>Python numbers\<close>

text \<open>
  The two exceptions of Python's number conversions that the code can meet.
\<close>

datatype py_error = OverflowError | ValueError

text \<open>
  An arithmetic operation between an \<open>int\<close> and a \<open>float\<close> converts the \<open>int\<close>
  to a \<open>float\<close> first. The conversion raises \<open>OverflowError\<close> from
  \<open>2 ** 1024 - 2 ** 970\<close> on, the first integer that rounds to \<open>2 ** 1024\<close>.
  Floats themselves are modelled as real numbers: the model computes without the
  rounding of Python's floats.
\<close>

definition float_limit :: nat where
  "float_limit = 2 ^ 1024 - 2 ^ 970"

definition float_of_nat :: "nat \<Rightarrow> py_error + real" where
  "float_of_nat k = (if k \<ge> float_limit then Inl OverflowError else Inr (real k))"

text \<open>
  \<open>time.sleep(seconds)\<close> raises \<open>OverflowError\<close> when the length of the sleep,
  in nanoseconds, does not fit a signed 64-bit integer.
\<close>

definition sleep_overflows :: "real \<Rightarrow> bool" where
  "sleep_overflows seconds \<longleftrightarrow> seconds * 10 ^ 9 > 2 ^ 63"

section \<open>Adaptive rate limiter (patentscope_scraper.py)\<close>

text \<open>
  \<open>min_delay\<close> and \<open>max_delay\<close> are floats, as the defaults of the constructor
  (1.0 and 3.0) and the configuration give them; they and the clock readings are real
  numbers here. \<open>consecutive_errors\<close> and \<open>success_streak\<close> start at 0 and are
  only incremented or reset, so they are natural numbers.
\<close>

record RateLimiter =
  min_delay :: real
  max_delay :: real
  adaptive :: bool
  last_request_time :: real
  consecutive_errors :: nat
  success_streak :: nat

definition new_RateLimiter :: "real \<Rightarrow> real \<Rightarrow> bool \<Rightarrow> RateLimiter" where
  "new_RateLimiter lo hi ad =
     \<lparr>min_delay = lo, max_delay = hi, adaptive = ad, last_request_time = 0,
      consecutive_errors = 0, success_streak = 0\<rparr>"

text \<open>
  The delay that \<open>wait()\<close> computes, or the exception of the computation:
  \<open>min_delay * (2 ** consecutive_errors)\<close> and \<open>success_streak * 0.1\<close> convert an
  integer to a float. \<open>u\<close> is the value that \<open>random.uniform(min_delay, max_delay)\<close>
  draws in the non-adaptive mode.
\<close>

definition wait_delay :: "RateLimiter \<Rightarrow> real \<Rightarrow> py_error + real" where
  "wait_delay rl u =
     (if adaptive rl then
        (if consecutive_errors rl > 0 then
           (case float_of_nat (2 ^ consecutive_errors rl) of
              Inl e \<Rightarrow> Inl e
            | Inr p \<Rightarrow> Inr (min (min_delay rl * p) (max_delay rl)))
         else
           (case float_of_nat (success_streak rl) of
              Inl e \<Rightarrow> Inl e
            | Inr s \<Rightarrow> Inr (max (min_delay rl) (max_delay rl / (1 + s * 0.1)))))
      else Inr u)"

text \<open>
  \<open>wait()\<close> at clock reading \<open>current_time\<close>: it returns the time slept and the
  limiter with \<open>last_request_time\<close> set to the clock after the sleep, or raises what
  the computation of the delay or the sleep raises.
\<close>

definition wait :: "RateLimiter \<Rightarrow> real \<Rightarrow> real \<Rightarrow> py_error + real \<times> RateLimiter" where
  "wait rl current_time u =
     (case wait_delay rl u of
        Inl e \<Rightarrow> Inl e
      | Inr delay \<Rightarrow>
          (let elapsed = current_time - last_request_time rl
           in if elapsed < delay then
                (if sleep_overflows (delay - elapsed) then Inl OverflowError
                 else Inr (delay - elapsed,
                           rl\<lparr>last_request_time := current_time + (delay - elapsed)\<rparr>))
              else Inr (0, rl\<lparr>last_request_time := current_time\<rparr>)))"

definition record_success :: "RateLimiter \<Rightarrow> RateLimiter" where
  "record_success rl = rl\<lparr>consecutive_errors := 0, success_streak := success_streak rl + 1\<rparr>"

definition record_error :: "RateLimiter \<Rightarrow> RateLimiter" where
  "record_error rl = rl\<lparr>consecutive_errors := consecutive_errors rl + 1, success_streak := 0\<rparr>"

section \<open>Fetch with retry (app/scraper.py)\<close>

text \<open>
  What one \<open>self.session.get\<close> gives: a response (status code and text), an
  \<open>httpx.TimeoutException\<close>, another \<open>httpx.HTTPError\<close>, or any other exception.
  The network is a function from the attempt number to this outcome.
\<close>

datatype http_outcome =
  Response int string | TimeoutException | HTTPError | OtherException

text \<open>
  The exceptions that leave \<open>_fetch_with_retry\<close>: the three \<open>Exception(...)\<close> it
  raises itself (timeout on the last attempt, HTTP error on the last attempt, and the one
  after the loop, with the url and \<open>max_retries\<close> of its message), and an exception
  that neither \<open>except\<close> clause catches.
\<close>

datatype fetch_error =
  TimeoutFailure | HTTPFailure | RetriesExhausted string int | Uncaught

text \<open>\<open>response.raise_for_status()\<close> of httpx raises for every status outside 2xx.\<close>

definition raise_for_status_raises :: "int \<Rightarrow> bool" where
  "raise_for_status_raises status_code \<longleftrightarrow> \<not> (200 \<le> status_code \<and> status_code < 300)"

text \<open>
  The delay before a retry, \<open>(2 ** attempt) + random.uniform(0, 1)\<close>, converts
  \<open>2 ** attempt\<close> to a float: the \<open>OverflowError\<close> of the conversion is raised
  inside the \<open>try\<close> and caught by neither \<open>except\<close> clause.
\<close>

definition backoff_raises :: "nat \<Rightarrow> bool" where
  "backoff_raises attempt \<longleftrightarrow> attempt > 0 \<and> float_of_nat (2 ^ attempt) = Inl OverflowError"

text \<open>
  The loop \<open>for attempt in range(max_retries)\<close>. The two \<open>asyncio.sleep\<close> calls
  only spend time and are not part of the model.
\<close>

function fetch_loop :: "(nat \<Rightarrow> http_outcome) \<Rightarrow> string \<Rightarrow> int \<Rightarrow> nat \<Rightarrow> fetch_error + string" where
  "fetch_loop net url max_retries attempt =
     (if int attempt < max_retries then
        (if backoff_raises attempt then Inl Uncaught
         else
           (case net attempt of
              Response status_code text \<Rightarrow>
                if status_code = 200 then Inr text
                else if status_code = 429 then fetch_loop net url max_retries (Suc attempt)
                else if status_code \<ge> 500 then fetch_loop net url max_retries (Suc attempt)
                else if raise_for_status_raises status_code then
                  (if int attempt = max_retries - 1 then Inl HTTPFailure
                   else fetch_loop net url max_retries (Suc attempt))
                else fetch_loop net url max_retries (Suc attempt)
            | TimeoutException \<Rightarrow>
                if int attempt = max_retries - 1 then Inl TimeoutFailure
                else fetch_loop net url max_retries (Suc attempt)
            | HTTPError \<Rightarrow>
                if int attempt = max_retries - 1 then Inl HTTPFailure
                else fetch_loop net url max_retries (Suc attempt)
            | OtherException \<Rightarrow> Inl Uncaught))
      else Inl (RetriesExhausted url max_retries))"
  by pat_completeness auto
termination
  by (relation "measure (\<lambda>(net, url, max_retries, attempt). nat max_retries - attempt)") auto

declare fetch_loop.simps [simp del]

definition fetch_with_retry :: "(nat \<Rightarrow> http_outcome) \<Rightarrow> string \<Rightarrow> int \<Rightarrow> fetch_error + string" where
  "fetch_with_retry net url max_retries = fetch_loop net url max_retries 0"

section \<open>Request with automatic retry (patentscope_scraper.py)\<close>

text \<open>
  What one \<open>self.session.get\<close> or \<open>post\<close> of the \<open>requests\<close> library gives: a
  response, a \<open>requests.RequestException\<close>, or another exception.
  \<open>raise_for_status()\<close> of \<open>requests\<close> raises an \<open>HTTPError\<close> (a
  \<open>RequestException\<close>) for the statuses 400 to 599.
\<close>

datatype requests_outcome =
  ReqResponse int string | RequestException | ReqOtherException

text \<open>
  The exceptions that leave \<open>_make_request\<close>: a \<open>RequestException\<close> (retried by the
  decorator), another exception of the request, the exception that
  \<open>rate_limiter.wait()\<close> raises before the \<open>try\<close>, and the \<open>RetryError\<close> of the
  decorator.
\<close>

datatype request_error = RequestFailed | OtherFailed | WaitRaised py_error | RetryError

text \<open>
  Two traces kept beside the state of the rate limiter: the calls made on it, in order,
  and the status codes of the responses received, in order.
\<close>

datatype limiter_call = Wait | RecordSuccess | RecordError

record client =
  rate_limiter :: RateLimiter
  calls :: "limiter_call list"
  received :: "int list"

text \<open>What the environment gives to one attempt: the clock, the random draw, the reply.\<close>

record attempt_env =
  clock :: real
  draw :: real
  reply :: requests_outcome

text \<open>
  The body of \<open>_make_request\<close>, one attempt. When \<open>wait()\<close> raises, no request is
  sent and nothing is recorded on the limiter.
\<close>

definition make_request_body :: "client \<Rightarrow> attempt_env \<Rightarrow> (request_error + int \<times> string) \<times> client" where
  "make_request_body c env =
     (case wait (rate_limiter c) (clock env) (draw env) of
        Inl e \<Rightarrow> (Inl (WaitRaised e), c\<lparr>calls := calls c @ [Wait]\<rparr>)
      | Inr (slept, rl) \<Rightarrow>
          (case reply env of
             ReqResponse status_code text \<Rightarrow>
               if 400 \<le> status_code \<and> status_code < 600 then
                 (Inl RequestFailed,
                  \<lparr>rate_limiter = record_error rl, calls = calls c @ [Wait, RecordError],
                   received = received c @ [status_code]\<rparr>)
               else
                 (Inr (status_code, text),
                  \<lparr>rate_limiter = record_success rl, calls = calls c @ [Wait, RecordSuccess],
                   received = received c @ [status_code]\<rparr>)
           | RequestException \<Rightarrow>
               (Inl RequestFailed,
                \<lparr>rate_limiter = record_error rl, calls = calls c @ [Wait, RecordError],
                 received = received c\<rparr>)
           | ReqOtherException \<Rightarrow>
               (Inl OtherFailed,
                \<lparr>rate_limiter = rl, calls = calls c @ [Wait], received = received c\<rparr>)))"

text \<open>
  The decorator \<open>@retry(stop=stop_after_attempt(3), retry=retry_if_exception_type(
  requests.RequestException))\<close> of the tenacity library: attempts are numbered from 1;
  a \<open>RequestException\<close> is retried until attempt 3 has failed, then \<open>RetryError\<close> is
  raised; any other exception is raised at once. The waits between attempts
  (\<open>wait_exponential\<close>) only spend time.
\<close>

definition stop_after_attempt :: nat where
  "stop_after_attempt = 3"

function retrying :: "(nat \<Rightarrow> attempt_env) \<Rightarrow> nat \<Rightarrow> client \<Rightarrow> (request_error + int \<times> string) \<times> client" where
  "retrying env attempt_number c =
     (case make_request_body c (env attempt_number) of
        (Inr response, c') \<Rightarrow> (Inr response, c')
      | (Inl RequestFailed, c') \<Rightarrow>
          if attempt_number \<ge> stop_after_attempt then (Inl RetryError, c')
          else retrying env (Suc attempt_number) c'
      | (Inl e, c') \<Rightarrow> (Inl e, c'))"
  by pat_completeness auto
termination
  by (relation "measure (\<lambda>(env, attempt_number, c). stop_after_attempt - attempt_number)") auto

declare retrying.simps [simp del]

definition make_request :: "(nat \<Rightarrow> attempt_env) \<Rightarrow> client \<Rightarrow> (request_error + int \<times> string) \<times> client" where
  "make_request env c = retrying env 1 c"

section \<open>Field extraction (app/parser.py)\<close>

text \<open>
  The parsel library is not part of the repository. A node of the parsed page is modelled
  by what its queries return: \<open>icss it sel\<close> is \<open>item.css(sel).getall()\<close> and
  \<open>ixpath it q\<close> is \<open>item.xpath(q).getall()\<close>, the texts (or attribute values) selected,
  in document order. For the page itself, \<open>doc_items d sel\<close> is the list of nodes that
  \<open>selector.css(sel)\<close> matches, \<open>doc_css\<close> and \<open>doc_xpath\<close> are the text queries.
\<close>

record item =
  icss :: "string \<Rightarrow> string list"
  ixpath :: "string \<Rightarrow> string list"

record document =
  doc_items :: "string \<Rightarrow> item list"
  doc_css :: "string \<Rightarrow> string list"
  doc_xpath :: "string \<Rightarrow> string list"

text \<open>\<open>.get()\<close>: the first selected text, or \<open>None\<close>.\<close>

definition get_first :: "string list \<Rightarrow> string option" where
  "get_first ts = (case ts of [] \<Rightarrow> None | t # _ \<Rightarrow> Some t)"

text \<open>
  The loop of a single-valued field,
  \<^verbatim>\<open>for sel in selectors: v = item.css(sel).get(); if v: break\<close>:
  the variable keeps the value of the last selector tried.
\<close>

fun first_match :: "(string \<Rightarrow> string list) \<Rightarrow> string list \<Rightarrow> string option \<Rightarrow> string option" where
  "first_match q [] v = v"
| "first_match q (sel # sels) v =
     (let v' = get_first (q sel) in if truthy v' then v' else first_match q sels v')"

text \<open>
  The loop of a multi-valued field,
  \<^verbatim>\<open>for sel in selectors: parts = item.css(sel).getall(); if parts: acc.extend(parts)\<close>.
\<close>

fun extend_all :: "(string \<Rightarrow> string list) \<Rightarrow> string list \<Rightarrow> string list \<Rightarrow> string list" where
  "extend_all q [] acc = acc"
| "extend_all q (sel # sels) acc =
     (let parts = q sel in extend_all q sels (if parts \<noteq> [] then acc @ parts else acc))"

text \<open>\<open>[a.strip() for a in xs if a.strip()]\<close>\<close>

definition strip_nonempty :: "string list \<Rightarrow> string list" where
  "strip_nonempty xs = [strip a. a \<leftarrow> xs, strip a \<noteq> []]"

text \<open>\<open>' '.join(parts)\<close>\<close>

fun join_space :: "string list \<Rightarrow> string" where
  "join_space [] = []"
| "join_space [p] = p"
| "join_space (p # ps) = p @ '' '' @ join_space ps"

text \<open>
  \<open>re.search(r'docId=([^&\s]+)', href)\<close>, group 1 of the leftmost match: the longest
  run of characters other than \<open>&\<close> and whitespace after the first \<open>docId=\<close> that
  is followed by such a character.
\<close>

fun search_docId :: "string \<Rightarrow> string option" where
  "search_docId [] = None"
| "search_docId (c # cs) =
     (let g = takeWhile (\<lambda>x. x \<noteq> CHR ''&'' \<and> \<not> py_isspace x) (drop 6 (c # cs))
      in if take 6 (c # cs) = ''docId='' \<and> g \<noteq> [] then Some g else search_docId cs)"

definition result_selectors :: "string list" where
  \<open>result_selectors =
     [''.result-item'', ''.patent-result'', ''tr.data-row'', ''div[class*="result"]'',
      ''tr[class*="row"]'', ''div[id*="result"]'', ''.resultSet > div'',
      ''table.resultTable tr'']\<close>

definition pub_selectors :: "string list" where
  \<open>pub_selectors =
     [''.publication-number::text'', ''.pub-number::text'', ''a[href*="docId"]::text'',
      ''.docId::text'', ''td.number::text'', ''span[class*="number"]::text'']\<close>

definition pub_xpath :: string where
  \<open>pub_xpath = ''.//text()[contains(., "WO") or contains(., "US") or contains(., "EP")]''\<close>

definition href_selector :: string where
  \<open>href_selector = ''a[href*="docId"]::attr(href)''\<close>

definition title_selectors :: "string list" where
  \<open>title_selectors =
     [''.title::text'', ''h3::text'', ''.patent-title::text'', ''a[href*="docId"]::text'',
      ''td.title::text'', ''div[class*="title"]::text'']\<close>

definition abstract_selectors :: "string list" where
  \<open>abstract_selectors =
     [''.abstract::text'', ''.summary::text'', ''div[class*="abstract"]::text'',
      ''td.abstract::text'']\<close>

definition applicant_selectors :: "string list" where
  \<open>applicant_selectors =
     [''.applicant::text'', ''.applicant-name::text'', ''div[class*="applicant"]::text'',
      ''td.applicant::text'']\<close>

definition inventor_selectors :: "string list" where
  \<open>inventor_selectors =
     [''.inventor::text'', ''.inventor-name::text'', ''div[class*="inventor"]::text'']\<close>

definition date_selectors :: "string list" where
  \<open>date_selectors =
     [''.publication-date::text'', ''.pub-date::text'', ''td.date::text'',
      ''span[class*="date"]::text'']\<close>

definition ipc_selectors :: "string list" where
  \<open>ipc_selectors = [''.ipc-code::text'', ''.ipc::text'', ''span[class*="ipc"]::text'']\<close>

text \<open>
  The dictionary \<open>result\<close> built for one item. A key the source may leave out is an
  optional field (\<open>None\<close>: the key is absent); the three lists are always set.
  \<open>url\<close> is added later, by \<open>search_by_molecule\<close>.
\<close>

record patent_result =
  publication_number :: "string option"
  patent_id :: "string option"
  title :: "string option"
  abstract :: "string option"
  applicants :: "string list"
  inventors :: "string list"
  publication_date :: "string option"
  ipc_codes :: "string list"
  url :: "string option"

text \<open>\<open>if v: result[key] = v.strip()\<close>\<close>

definition stripped_if_truthy :: "string option \<Rightarrow> string option" where
  "stripped_if_truthy v = (if truthy v then map_option strip v else None)"

text \<open>
  The publication number of an item: the selector cascade, then the XPath fallback over
  the text nodes, then \<open>strip()\<close>. \<open>None\<close>: the key \<open>publication_number\<close> is
  not set.
\<close>

definition publication_number_of :: "item \<Rightarrow> string option" where
  "publication_number_of it =
     (let pub0 = first_match (icss it) pub_selectors None;
          pub_number = (if \<not> truthy pub0 then get_first (ixpath it pub_xpath) else pub0)
      in stripped_if_truthy pub_number)"

text \<open>
  The identifier taken from the link to the detail view: \<open>href\<close> is the first
  \<open>a[href*="docId"]::attr(href)\<close>, and the identifier is group 1 of the pattern found
  in it. \<open>None\<close>: the key \<open>patent_id\<close> is not set from the link.
\<close>

definition doc_id_of :: "item \<Rightarrow> string option" where
  "doc_id_of it =
     (case get_first (icss it href_selector) of
        None \<Rightarrow> None
      | Some href \<Rightarrow> if href \<noteq> [] then search_docId href else None)"

text \<open>
  The body of \<open>for item in items\<close>: the result appended for the item, or \<open>None\<close>
  when nothing is appended. The queries of the model raise no exception, so the
  \<open>except\<close> clause that skips an item is never entered.
\<close>

definition parse_item :: "item \<Rightarrow> patent_result option" where
  "parse_item it =
     (let r_publication_number = publication_number_of it;
          r_patent_id = (case doc_id_of it of
                           Some d \<Rightarrow> Some d
                         | None \<Rightarrow> r_publication_number);
          abstract_parts = extend_all (icss it) abstract_selectors [];
          result =
            \<lparr>publication_number = r_publication_number,
             patent_id = r_patent_id,
             title = stripped_if_truthy (first_match (icss it) title_selectors None),
             abstract = (if abstract_parts \<noteq> [] then Some (strip (join_space abstract_parts))
                         else None),
             applicants = strip_nonempty (extend_all (icss it) applicant_selectors []),
             inventors = strip_nonempty (extend_all (icss it) inventor_selectors []),
             publication_date = stripped_if_truthy (first_match (icss it) date_selectors None),
             ipc_codes = strip_nonempty (extend_all (icss it) ipc_selectors []),
             url = None\<rparr>
      in if truthy r_patent_id \<or> truthy r_publication_number then Some result else None)"

fun parse_items :: "item list \<Rightarrow> patent_result list" where
  "parse_items [] = []"
| "parse_items (it # its) =
     (case parse_item it of
        Some result \<Rightarrow> result # parse_items its
      | None \<Rightarrow> parse_items its)"

text \<open>
  The container loop,
  \<^verbatim>\<open>for sel in result_selectors: items = selector.css(sel); if items: break\<close>.
\<close>

fun first_items :: "(string \<Rightarrow> item list) \<Rightarrow> string list \<Rightarrow> item list \<Rightarrow> item list" where
  "first_items q [] items = items"
| "first_items q (sel # sels) items =
     (let items' = q sel in if items' \<noteq> [] then items' else first_items q sels items')"

definition parse_search_results :: "document \<Rightarrow> patent_result list" where
  "parse_search_results d = parse_items (first_items (doc_items d) result_selectors [])"

section \<open>Total count (app/parser.py)\<close>

definition is_digit :: "char \<Rightarrow> bool" where
  "is_digit c \<longleftrightarrow> c \<in> set ''0123456789''"

text \<open>
  \<open>re.findall(r'\d[\d,]*', text)\<close>, scanning from the left: \<open>cur\<close> is the match
  being read (empty outside a match); a match starts at a digit and takes every
  following digit or comma.
\<close>

fun findall_numbers :: "string \<Rightarrow> string \<Rightarrow> string list" where
  "findall_numbers [] cur = (if cur = [] then [] else [cur])"
| "findall_numbers (c # cs) cur =
     (if cur = [] then (if is_digit c then findall_numbers cs [c] else findall_numbers cs [])
      else if is_digit c \<or> c = CHR '','' then findall_numbers cs (cur @ [c])
      else cur # findall_numbers cs [])"

text \<open>
  \<open>int(n.replace(',', ''))\<close> on a match of the pattern (digits and commas).
  \<open>int_of_digits\<close> is the integer that the digits denote. \<open>int()\<close> raises
  \<open>ValueError\<close> when the text has more than 4300 digits, leading zeros included: the
  default limit of CPython from version 3.11 on.
\<close>

definition digit_value :: "char \<Rightarrow> int" where
  "digit_value c = int (of_char c) - 48"

definition remove_commas :: "string \<Rightarrow> string" where
  "remove_commas n = filter (\<lambda>c. c \<noteq> CHR '','') n"

definition int_of_digits :: "string \<Rightarrow> int" where
  "int_of_digits ds = foldl (\<lambda>acc c. 10 * acc + digit_value c) 0 ds"

definition max_str_digits :: nat where
  "max_str_digits = 4300"

definition parse_int :: "string \<Rightarrow> py_error + int" where
  "parse_int n =
     (if length (remove_commas n) > max_str_digits then Inl ValueError
      else Inr (int_of_digits (remove_commas n)))"

text \<open>
  The generator \<open>int(n.replace(',', '')) for n in numbers\<close>, consumed from the left:
  the first conversion that raises ends it.
\<close>

fun parse_all :: "string list \<Rightarrow> py_error + int list" where
  "parse_all [] = Inr []"
| "parse_all (n # ns) =
     (case parse_int n of
        Inl e \<Rightarrow> Inl e
      | Inr x \<Rightarrow> (case parse_all ns of Inl e \<Rightarrow> Inl e | Inr xs \<Rightarrow> Inr (x # xs)))"

text \<open>\<open>max(...)\<close> of a non-empty sequence, given as its head and tail.\<close>

definition py_max :: "int \<Rightarrow> int list \<Rightarrow> int" where
  "py_max x xs = fold max xs x"

text \<open>
  The number a text gives: the largest of its matches, \<open>None\<close> without a match, or
  the exception of a conversion.
\<close>

definition max_number :: "string \<Rightarrow> py_error + int option" where
  "max_number text =
     (case findall_numbers text [] of
        [] \<Rightarrow> Inr None
      | n # ns \<Rightarrow>
          (case parse_int n of
             Inl e \<Rightarrow> Inl e
           | Inr x \<Rightarrow>
               (case parse_all ns of
                  Inl e \<Rightarrow> Inl e
                | Inr xs \<Rightarrow> Inr (Some (py_max x xs)))))"

definition total_selectors :: "string list" where
  \<open>total_selectors =
     [''.total-results::text'', ''.result-count::text'', ''#totalResults::text'',
      ''.results-info::text'', ''span[class*="total"]::text'', ''div[class*="count"]::text'']\<close>

text \<open>
  The first loop: \<open>Inr (Some n)\<close> is its \<open>return n\<close>, \<open>Inr None\<close> is falling out of
  it, \<open>Inl e\<close> is the exception of a conversion.
\<close>

fun total_from_selectors :: "(string \<Rightarrow> string list) \<Rightarrow> string list \<Rightarrow> py_error + int option" where
  "total_from_selectors q [] = Inr None"
| "total_from_selectors q (sel # sels) =
     (let text = get_first (q sel)
      in case (if truthy text then text else None) of
           None \<Rightarrow> total_from_selectors q sels
         | Some t \<Rightarrow>
             (case max_number t of
                Inl e \<Rightarrow> Inl e
              | Inr (Some n) \<Rightarrow> Inr (Some n)
              | Inr None \<Rightarrow> total_from_selectors q sels))"

text \<open>
  \<open>text.lower()\<close> on code points below 256, and \<open>keyword in text\<close>.
\<close>

definition py_lower_char :: "char \<Rightarrow> char" where
  "py_lower_char c =
     (let n = (of_char c :: nat)
      in if (65 \<le> n \<and> n \<le> 90) \<or> (192 \<le> n \<and> n \<le> 222 \<and> n \<noteq> 215)
         then char_of (n + 32) else c)"

definition py_lower :: "string \<Rightarrow> string" where
  "py_lower s = map py_lower_char s"

fun contains :: "string \<Rightarrow> string \<Rightarrow> bool" where
  "contains sub [] = (sub = [])"
| "contains sub (c # cs) = (take (length sub) (c # cs) = sub \<or> contains sub cs)"

definition total_keywords :: "string list" where
  "total_keywords = [''total'', ''results'', ''found'', ''resultados'']"

definition has_keyword :: "string \<Rightarrow> bool" where
  "has_keyword text \<longleftrightarrow> list_ex (\<lambda>keyword. contains keyword (py_lower text)) total_keywords"

text \<open>The second loop, over all text nodes of the page.\<close>

fun total_from_texts :: "string list \<Rightarrow> py_error + int option" where
  "total_from_texts [] = Inr None"
| "total_from_texts (text # texts) =
     (if has_keyword text then
        (case max_number text of
           Inl e \<Rightarrow> Inl e
         | Inr (Some n) \<Rightarrow> Inr (Some n)
         | Inr None \<Rightarrow> total_from_texts texts)
      else total_from_texts texts)"

definition all_text_xpath :: string where
  "all_text_xpath = ''//text()''"

definition extract_total_results :: "document \<Rightarrow> py_error + int" where
  "extract_total_results d =
     (case total_from_selectors (doc_css d) total_selectors of
        Inl e \<Rightarrow> Inl e
      | Inr (Some n) \<Rightarrow> Inr n
      | Inr None \<Rightarrow>
          (case total_from_texts (doc_xpath d all_text_xpath) of
             Inl e \<Rightarrow> Inl e
           | Inr (Some n) \<Rightarrow> Inr n
           | Inr None \<Rightarrow> Inr 0))"

section \<open>Search by molecule (app/scraper.py)\<close>

definition BASE_URL :: string where
  "BASE_URL = ''https://patentscope.wipo.int''"

definition SEARCH_URL :: string where
  "SEARCH_URL = BASE_URL @ ''/search/en/result.jsf''"

text \<open>The query parameters of the request, a dictionary with text and integer values.\<close>

datatype param_value = PStr string | PInt int

type_synonym params = "(string \<times> param_value) list"

definition search_params :: "string \<Rightarrow> string \<Rightarrow> int \<Rightarrow> int \<Rightarrow> params" where
  "search_params molecule search_type page page_size =
     (let query = build_molecule_query molecule search_type;
          start_rec = (page - 1) * page_size + 1
      in [(''query'', PStr query), (''office'', PStr ''all''),
          (''sortOption'', PStr ''Relevance''), (''maxRec'', PInt page_size),
          (''startRec'', PInt start_rec)])"

text \<open>
  The exceptions of the \<open>try\<close> block: those of the fetch, an exception that parsel
  raises while the two parser functions build \<open>Selector(text=html)\<close>, the exception
  that \<open>extract_total_results\<close> raises, and the \<open>ZeroDivisionError\<close> of
  \<open>// page_size\<close>. All are instances of \<open>Exception\<close>.
\<close>

datatype search_exception =
  FetchFailed fetch_error | ExtractionFailed | TotalCountFailed py_error | ZeroDivisionError

text \<open>
  The dictionary returned. \<open>error\<close> is \<open>None\<close> in the success payload, where the
  source has no such key; \<open>next_page\<close> and \<open>previous_page\<close> are \<open>None\<close> in the
  error payload for the same reason. \<open>query\<close> holds the molecule as given. The clock
  values \<open>duration_ms\<close> and \<open>scraped_at\<close> of the success payload are left out.
\<close>

record payload =
  status :: string
  error :: "search_exception option"
  results :: "patent_result list"
  total_results :: int
  page :: int
  page_size :: int
  total_pages :: int
  has_next :: bool
  has_previous :: bool
  next_page :: "int option"
  previous_page :: "int option"
  query :: string
  search_type :: string

definition error_payload :: "search_exception \<Rightarrow> string \<Rightarrow> string \<Rightarrow> int \<Rightarrow> int \<Rightarrow> payload" where
  "error_payload e molecule stype pg pg_size =
     \<lparr>status = ''error'', error = Some e, results = [], total_results = 0, page = pg,
      page_size = pg_size, total_pages = 0, has_next = False, has_previous = False,
      next_page = None, previous_page = None, query = molecule, search_type = stype\<rparr>"

text \<open>\<open>result['url'] = ...\<close>, by whether the key \<open>patent_id\<close> is present.\<close>

definition add_url :: "patent_result \<Rightarrow> patent_result" where
  "add_url result =
     (case patent_id result of
        Some pid \<Rightarrow> result\<lparr>url := Some (BASE_URL @ ''/search/en/detail.jsf?docId='' @ pid)\<rparr>
      | None \<Rightarrow> result\<lparr>url := Some BASE_URL\<rparr>)"

text \<open>
  \<open>net url params\<close> is the network as \<open>_fetch_with_retry\<close> sees it for that request;
  \<open>selector\<close> is \<open>Selector(text=html)\<close> of parsel, \<open>None\<close> when it raises.
\<close>

definition search_by_molecule ::
  "(string \<Rightarrow> params \<Rightarrow> nat \<Rightarrow> http_outcome) \<Rightarrow> (string \<Rightarrow> document option) \<Rightarrow>
   string \<Rightarrow> string \<Rightarrow> int \<Rightarrow> int \<Rightarrow> payload" where
  "search_by_molecule net selector molecule stype pg pg_size =
     (let ps = search_params molecule stype pg pg_size
      in case fetch_with_retry (net SEARCH_URL ps) SEARCH_URL 3 of
           Inl e \<Rightarrow> error_payload (FetchFailed e) molecule stype pg pg_size
         | Inr html \<Rightarrow>
             (case selector html of
                None \<Rightarrow> error_payload ExtractionFailed molecule stype pg pg_size
              | Some d \<Rightarrow>
                  (let found = parse_search_results d
                   in case extract_total_results d of
                        Inl e \<Rightarrow> error_payload (TotalCountFailed e) molecule stype pg pg_size
                      | Inr total0 \<Rightarrow>
                          (let total = (if total0 = 0 \<and> found \<noteq> [] then int (length found)
                                        else total0)
                           in if pg_size = 0
                              then error_payload ZeroDivisionError molecule stype pg pg_size
                              else
                                (let pages = max 1 ((total + pg_size - 1) div pg_size)
                                 in \<lparr>status = ''success'', error = None,
                                     results = map add_url found, total_results = total,
                                     page = pg, page_size = pg_size, total_pages = pages,
                                     has_next = (pg < pages), has_previous = (pg > 1),
                                     next_page = (if pg < pages then Some (pg + 1) else None),
                                     previous_page = (if pg > 1 then Some (pg - 1) else None),
                                     query = molecule, search_type = stype\<rparr>)))))"

section \<open>Paginated crawl (patentscope_scraper.py)\<close>

text \<open>
  A patent of the Selenium scraper is a dictionary. The two keys that the validator and
  the deduplication read are optional fields (\<open>None\<close>: the key is absent or its value
  is \<open>None\<close>, which the code does not tell apart); \<open>other_fields\<close> holds every other key.
\<close>

record patent =
  publicationNumber :: "string option"
  patent_title :: "string option"
  other_fields :: "(string \<times> string) list"

text \<open>
  \<open>DataValidator.validate_patent\<close> with the configuration of config_patentscope.py:
  required fields \<open>publicationNumber\<close> and \<open>title\<close>, minimal title length 5.
\<close>

definition MIN_TITLE_LENGTH :: nat where
  "MIN_TITLE_LENGTH = 5"

definition validate_patent :: "patent \<Rightarrow> bool" where
  "validate_patent data =
     (if \<not> (truthy (publicationNumber data) \<and> truthy (patent_title data)) then False
      else
        (case patent_title data of
           Some t \<Rightarrow> if t \<noteq> [] \<and> length t < MIN_TITLE_LENGTH then False else True
         | None \<Rightarrow> True))"

text \<open>
  What the browser gives when the loop looks for the next page while on page \<open>n\<close>:
  no usable next button, an exception somewhere in the step (caught, the loop stops), or
  the patents extracted from the page that the click loads.
\<close>

datatype page_event = NoNextButton | PaginationError | NextPage "patent list"

definition max_paginas :: nat where
  "max_paginas = 10"

text \<open>
  The loop \<open>while len(patentes) < limite and pagina_atual < max_paginas\<close> of
  \<open>_buscar_com_selenium\<close>; it returns \<open>patentes\<close> and \<open>pagina_atual\<close>.
\<close>

function paginate :: "(nat \<Rightarrow> page_event) \<Rightarrow> int \<Rightarrow> patent list \<Rightarrow> nat \<Rightarrow> patent list \<times> nat" where
  "paginate driver limite patentes pagina_atual =
     (if int (length patentes) < limite \<and> pagina_atual < max_paginas then
        (case driver pagina_atual of
           NoNextButton \<Rightarrow> (patentes, pagina_atual)
         | PaginationError \<Rightarrow> (patentes, pagina_atual)
         | NextPage patentes_pagina \<Rightarrow>
             if length patentes_pagina = 0 then (patentes, pagina_atual)
             else if int (length (patentes @ patentes_pagina)) \<ge> limite
               then (patentes @ patentes_pagina, Suc pagina_atual)
               else paginate driver limite (patentes @ patentes_pagina) (Suc pagina_atual))
      else (patentes, pagina_atual))"
  by pat_completeness auto
termination
  by (relation "measure (\<lambda>(driver, limite, patentes, pagina_atual). max_paginas - pagina_atual)")
    auto

declare paginate.simps [simp del]

text \<open>The slice \<open>xs[:n]\<close> of Python, for any integer \<open>n\<close>.\<close>

definition slice_to :: "int \<Rightarrow> 'a list \<Rightarrow> 'a list" where
  "slice_to n xs = (if n \<ge> 0 then take (nat n) xs else take (length xs - nat (- n)) xs)"

text \<open>
  \<open>_buscar_com_selenium\<close> from the extraction of the first result page on:
  \<open>first_page\<close> are the patents extracted from page 1. It returns the patents and the
  number of pages read.
\<close>

definition buscar_com_selenium :: "(nat \<Rightarrow> page_event) \<Rightarrow> int \<Rightarrow> patent list \<Rightarrow> patent list \<times> nat" where
  "buscar_com_selenium driver limite first_page =
     (let (patentes, pagina_atual) = paginate driver limite first_page 1
      in (slice_to limite patentes, pagina_atual))"

text \<open>The validation loop of \<open>buscar_patentes\<close>, with its \<open>break\<close> at the limit.\<close>

fun validate_all :: "int \<Rightarrow> patent list \<Rightarrow> patent list \<Rightarrow> patent list" where
  "validate_all limite [] resultados = resultados"
| "validate_all limite (patente # patentes) resultados =
     (if validate_patent patente then
        (if int (length (resultados @ [patente])) \<ge> limite then resultados @ [patente]
         else validate_all limite patentes (resultados @ [patente]))
      else validate_all limite patentes resultados)"

text \<open>\<open>buscar_patentes\<close> in production mode (a driver is present, no demo data).\<close>

definition buscar_patentes :: "(nat \<Rightarrow> page_event) \<Rightarrow> int \<Rightarrow> patent list \<Rightarrow> patent list" where
  "buscar_patentes driver limite first_page =
     validate_all limite (fst (buscar_com_selenium driver limite first_page)) []"

section \<open>Deduplication (busca_completa_patentscope.py, patentscope_detalhes.py)\<close>

text \<open>
  A Python dictionary with text keys, in insertion order: an association list without
  repeated keys. \<open>dict_set\<close> is \<open>d[k] = v\<close>: a new key goes to the end, an existing key
  keeps its place and takes the new value.
\<close>

type_synonym 'v pydict = "(string \<times> 'v) list"

fun dict_set :: "'v pydict \<Rightarrow> string \<Rightarrow> 'v \<Rightarrow> 'v pydict" where
  "dict_set [] k v = [(k, v)]"
| "dict_set ((k', v') # d) k v = (if k' = k then (k, v) # d else (k', v') # dict_set d k v)"

text \<open>\<open>p.get('publicationNumber', '')\<close>\<close>

definition pub_num_of :: "patent \<Rightarrow> string" where
  "pub_num_of p = (case publicationNumber p of Some s \<Rightarrow> s | None \<Rightarrow> [])"

text \<open>The loop under \<open># Remove duplicatas\<close> in \<open>main\<close>.\<close>

fun unique_loop :: "patent list \<Rightarrow> patent pydict \<Rightarrow> patent pydict" where
  "unique_loop [] unique_patents = unique_patents"
| "unique_loop (p # ps) unique_patents =
     (let pub_num = pub_num_of p
      in if pub_num \<noteq> [] \<and> pub_num \<notin> set (map fst unique_patents)
         then unique_loop ps (dict_set unique_patents pub_num p)
         else unique_loop ps unique_patents)"

definition remove_duplicates :: "patent list \<Rightarrow> patent list" where
  "remove_duplicates all_patents = map snd (unique_loop all_patents [])"

text \<open>
  The deduplication as the specification words it: going through the records in order, a
  record is kept when it has a publication number that no earlier record had.
\<close>

fun keep_first :: "string list \<Rightarrow> patent list \<Rightarrow> patent list" where
  "keep_first seen [] = []"
| "keep_first seen (p # ps) =
     (if pub_num_of p \<noteq> [] \<and> pub_num_of p \<notin> set seen
      then p # keep_first (pub_num_of p # seen) ps
      else keep_first seen ps)"

text \<open>The loop of \<open>agrupar_por_publication_number\<close>.\<close>

fun agrupar_loop :: "patent list \<Rightarrow> patent pydict \<Rightarrow> patent pydict" where
  "agrupar_loop [] agrupadas = agrupadas"
| "agrupar_loop (patente # patentes) agrupadas =
     (let pub_num = pub_num_of patente
      in if pub_num \<noteq> [] then agrupar_loop patentes (dict_set agrupadas pub_num patente)
         else agrupar_loop patentes agrupadas)"

definition agrupar_por_publication_number :: "patent list \<Rightarrow> patent pydict" where
  "agrupar_por_publication_number patentes = agrupar_loop patentes []"

text \<open>
  The union that the specification describes for a multi-valued field: all results in
  order, each value kept at its first occurrence only.
\<close>

definition ordered_union :: "string list list \<Rightarrow> string list" where
  "ordered_union parts = rev (remdups (rev (concat parts)))"

section \<open>Example pages\<close>

text \<open>
  The item \<^verbatim>\<open><div class="result-item"><p class="publication-number">WO2023123456A1</p>
  <div class="applicant">ACME</div></div>\<close>: its one applicant node is selected by
  \<open>.applicant::text\<close> and by \<open>div[class*="applicant"]::text\<close>. It has no title.
\<close>

definition acme_item :: item where
  \<open>acme_item =
     \<lparr>icss = (\<lambda>sel. if sel = ''.publication-number::text'' then [''WO2023123456A1'']
                     else if sel = ''.applicant::text'' \<or> sel = ''div[class*="applicant"]::text''
                       then [''ACME'']
                     else []),
      ixpath = (\<lambda>q. if q = pub_xpath then [''WO2023123456A1''] else [])\<rparr>\<close>

text \<open>
  The item \<^verbatim>\<open><div class="result-item"><h3> Aspirin salts </h3>
  <a href="detail.jsf?docId=WO2020001&amp;q=1">WO2020001</a>
  <span class="applicant">Bayer </span><span class="applicant-name">Merck</span></div>\<close>:
  no node of class \<open>title\<close>, so the first title selector selects nothing and the
  second, \<open>h3::text\<close>, selects the heading.
\<close>

definition aspirin_item :: item where
  \<open>aspirin_item =
     \<lparr>icss = (\<lambda>sel. if sel = ''h3::text'' then ['' Aspirin salts '']
                     else if sel = ''a[href*="docId"]::text'' then [''WO2020001'']
                     else if sel = ''a[href*="docId"]::attr(href)''
                       then [''detail.jsf?docId=WO2020001&q=1'']
                     else if sel = ''.applicant::text'' then [''Bayer '']
                     else if sel = ''.applicant-name::text'' then [''Merck'']
                     else []),
      ixpath = (\<lambda>q. if q = pub_xpath then [''WO2020001''] else [])\<rparr>\<close>

text \<open>
  A page whose queries all select nothing, and a page holding the two items and the line
  \<^verbatim>\<open><span class="result-count">Showing 1 - 10 of 1,234 results</span>\<close>.
\<close>

definition empty_page :: document where
  "empty_page = \<lparr>doc_items = (\<lambda>sel. []), doc_css = (\<lambda>sel. []), doc_xpath = (\<lambda>q. [])\<rparr>"

definition two_item_page :: document where
  "two_item_page =
     \<lparr>doc_items = (\<lambda>sel. if sel = ''.result-item'' then [acme_item, aspirin_item] else []),
      doc_css = (\<lambda>sel. if sel = ''.result-count::text''
                         then [''Showing 1 - 10 of 1,234 results''] else []),
      doc_xpath = (\<lambda>q. if q = all_text_xpath
                         then [''WO2023123456A1'', ''ACME'', '' Aspirin salts '', ''WO2020001'',
                               ''Bayer '', ''Merck'', ''Showing 1 - 10 of 1,234 results'']
                         else [])\<rparr>"

section \<open>Properties of the query builder\<close>

lemma detect_input_Formula: "detect_input s = Formula \<longleftrightarrow> in_formula_alphabet s"
  by (auto simp: detect_input_def in_formula_alphabet_def remove_spaces_def list_all_iff)

lemma detect_input_Smiles:
  "detect_input s = Smiles \<longleftrightarrow> \<not> in_formula_alphabet s \<and> has_smiles_marker s"
  by (auto simp: detect_input_def in_formula_alphabet_def remove_spaces_def list_all_iff
      list_ex_iff smiles_markers_def has_smiles_marker_def)

lemma detect_input_Name:
  "detect_input s = Name \<longleftrightarrow> \<not> in_formula_alphabet s \<and> \<not> has_smiles_marker s"
  using detect_input_Formula [of s] detect_input_Smiles [of s]
  by (cases "detect_input s") auto

lemma build_molecule_query_cases:
  "build_molecule_query m st =
     (case classify m of
        Formula \<Rightarrow> restricted_query (strip m)
      | Smiles \<Rightarrow> restricted_query (strip m)
      | Name \<Rightarrow> all_fields_query (strip m))"
  by (simp add: build_molecule_query_def classify_def restricted_query_def all_fields_query_def
      Let_def split: input_kind.splits)

lemma set_strip_subset: "set (strip s) \<subseteq> set s"
proof -
  have "set (strip s) \<subseteq> set (dropWhile py_isspace s)"
    unfolding strip_def using set_dropWhileD by fastforce
  also have "\<dots> \<subseteq> set s" using set_dropWhileD by fastforce
  finally show ?thesis .
qed

lemma strip_keeps_non_space:
  assumes "c \<in> set s" "\<not> py_isspace c"
  shows "c \<in> set (strip s)"
proof -
  have a: "c \<in> set (dropWhile P xs)" if "c \<in> set xs" "\<not> P c" for P and xs :: string
    using that by (induction xs) auto
  have "c \<in> set (dropWhile py_isspace s)" using a assms by blast
  then have "c \<in> set (rev (dropWhile py_isspace s))" by simp
  then have "c \<in> set (dropWhile py_isspace (rev (dropWhile py_isspace s)))"
    using a assms(2) by blast
  then show ?thesis by (simp add: strip_def)
qed

lemma in_formula_alphabet_strip: "in_formula_alphabet m \<Longrightarrow> in_formula_alphabet (strip m)"
  using set_strip_subset [of m] by (auto simp: in_formula_alphabet_def)

lemma markers_not_space:
  "\<not> py_isspace CHR ''@''" "\<not> py_isspace CHR ''/''" "\<not> py_isspace (CHR 0x5C)"
  by (simp_all add: py_isspace_def whitespace_chars_def)

lemma has_smiles_marker_strip: "has_smiles_marker m \<Longrightarrow> has_smiles_marker (strip m)"
  unfolding has_smiles_marker_def
  using strip_keeps_non_space [of _ m] markers_not_space by blast

lemma markers_not_formula:
  "CHR ''@'' \<notin> set formula_alphabet" "CHR ''/'' \<notin> set formula_alphabet"
  "CHR 0x5C \<notin> set formula_alphabet"
  by (simp_all add: formula_alphabet_def)

lemma smiles_marker_not_formula: "has_smiles_marker s \<Longrightarrow> \<not> in_formula_alphabet s"
  unfolding has_smiles_marker_def in_formula_alphabet_def
  using markers_not_formula by fastforce

lemma strip_glucose: "strip ''glucose'' = ''glucose''"
  by (simp add: strip_def py_isspace_def whitespace_chars_def)

lemma classify_glucose: "classify ''glucose'' = Name"
  by (simp add: classify_def strip_glucose detect_input_Name in_formula_alphabet_def
      has_smiles_marker_def formula_alphabet_def)

text \<open>
  C1, as amended. \<open>_build_molecule_query\<close> first strips leading and trailing whitespace
  and decides on the stripped input: it is a Formula exactly when every character of the
  stripped input other than the space is in the formula alphabet, a Smiles exactly when it
  is not a Formula and holds one of \<open>@\<close>, \<open>/\<close>, \<open>\\<close>, and a Name otherwise. Formula
  and Smiles give the query \<open>EN_AB:("...")\<close> and Name gives \<open>EN_ALL:(...)\<close>, both around
  the stripped input. For the raw input: if all its characters other than spaces are in
  the alphabet it is a Formula, and if it holds a marker it is a Smiles. The input
  \<open>glucose\<close> is a Name.
\<close>

theorem build_molecule_query_classification:
  "(classify m = Formula \<longleftrightarrow> in_formula_alphabet (strip m)) \<and>
   (classify m = Smiles \<longleftrightarrow> \<not> in_formula_alphabet (strip m) \<and> has_smiles_marker (strip m)) \<and>
   (classify m = Name \<longleftrightarrow> \<not> in_formula_alphabet (strip m) \<and> \<not> has_smiles_marker (strip m)) \<and>
   build_molecule_query m st =
     (case classify m of
        Formula \<Rightarrow> restricted_query (strip m)
      | Smiles \<Rightarrow> restricted_query (strip m)
      | Name \<Rightarrow> all_fields_query (strip m)) \<and>
   (in_formula_alphabet m \<longrightarrow> classify m = Formula) \<and>
   (\<not> in_formula_alphabet m \<and> has_smiles_marker m \<longrightarrow> classify m = Smiles) \<and>
   classify ''glucose'' = Name \<and>
   build_molecule_query ''glucose'' st = all_fields_query ''glucose''"
proof -
  have raw_formula: "classify m = Formula" if "in_formula_alphabet m"
    using that in_formula_alphabet_strip by (simp add: classify_def detect_input_Formula)
  have raw_smiles: "classify m = Smiles" if "has_smiles_marker m"
    using has_smiles_marker_strip [OF that] smiles_marker_not_formula
    by (simp add: classify_def detect_input_Smiles)
  have glucose: "build_molecule_query ''glucose'' st = all_fields_query ''glucose''"
    by (simp add: build_molecule_query_cases classify_glucose strip_glucose)
  show ?thesis
    using raw_formula raw_smiles glucose classify_glucose
    by (simp add: classify_def detect_input_Formula detect_input_Smiles detect_input_Name
        build_molecule_query_cases [unfolded classify_def])
qed

theorem build_molecule_query_classification_witness:
  "in_formula_alphabet ''C6H12O6'' \<and> classify ''C6H12O6'' = Formula \<and>
   build_molecule_query ''C6H12O6'' ''exact'' = restricted_query ''C6H12O6'' \<and>
   \<not> in_formula_alphabet ''C/C=C/C'' \<and> has_smiles_marker ''C/C=C/C'' \<and>
   classify ''C/C=C/C'' = Smiles \<and>
   build_molecule_query ''C/C=C/C'' ''exact'' = restricted_query ''C/C=C/C''"
proof -
  have f: "in_formula_alphabet ''C6H12O6''"
    by (simp add: in_formula_alphabet_def formula_alphabet_def)
  have s: "\<not> in_formula_alphabet ''C/C=C/C'' \<and> has_smiles_marker ''C/C=C/C''"
    by (simp add: in_formula_alphabet_def formula_alphabet_def has_smiles_marker_def)
  have sf: "strip ''C6H12O6'' = ''C6H12O6''" and ss: "strip ''C/C=C/C'' = ''C/C=C/C''"
    by (simp_all add: strip_def py_isspace_def whitespace_chars_def)
  have cf: "classify ''C6H12O6'' = Formula"
    using build_molecule_query_classification [of "''C6H12O6''" "''exact''"] f by blast
  have cs: "classify ''C/C=C/C'' = Smiles"
    using build_molecule_query_classification [of "''C/C=C/C''" "''exact''"] s by blast
  have qf: "build_molecule_query ''C6H12O6'' ''exact'' = restricted_query ''C6H12O6''"
    using build_molecule_query_classification [of "''C6H12O6''" "''exact''"] cf sf by simp
  have qs: "build_molecule_query ''C/C=C/C'' ''exact'' = restricted_query ''C/C=C/C''"
    using build_molecule_query_classification [of "''C/C=C/C''" "''exact''"] cs ss by simp
  show ?thesis using f s cf cs qf qs by simp
qed

text \<open>
  The claim as stated fails on an input with a trailing newline: its characters other
  than spaces are not all in the alphabet and it holds none of \<open>@\<close>, \<open>/\<close>, \<open>\\<close>, so the
  claim makes it a Name; the code strips the newline and takes the Formula branch.
\<close>

theorem build_molecule_query_newline_counterexample:
  "\<not> in_formula_alphabet (''C6'' @ [CHR 0x0A]) \<and>
   \<not> has_smiles_marker (''C6'' @ [CHR 0x0A]) \<and>
   classify (''C6'' @ [CHR 0x0A]) = Formula \<and>
   build_molecule_query (''C6'' @ [CHR 0x0A]) ''exact'' = restricted_query ''C6''"
proof -
  have st: "strip (''C6'' @ [CHR 0x0A]) = ''C6''"
    by (simp add: strip_def py_isspace_def whitespace_chars_def)
  have c: "classify (''C6'' @ [CHR 0x0A]) = Formula"
    unfolding classify_def st
    by (simp add: detect_input_Formula in_formula_alphabet_def formula_alphabet_def)
  have q: "build_molecule_query (''C6'' @ [CHR 0x0A]) ''exact'' = restricted_query ''C6''"
    unfolding build_molecule_query_cases c st by simp
  have n: "\<not> in_formula_alphabet (''C6'' @ [CHR 0x0A]) \<and>
           \<not> has_smiles_marker (''C6'' @ [CHR 0x0A])"
    by (simp add: in_formula_alphabet_def has_smiles_marker_def formula_alphabet_def)
  show ?thesis using n c q by blast
qed

text \<open>
  Whitespace other than the space inside the input is not ignored either: a tab between
  two formula characters makes the input a Name.
\<close>

lemma build_molecule_query_inner_tab:
  "classify (''C'' @ [CHR 0x09] @ ''6'') = Name"
  by (simp add: classify_def strip_def py_isspace_def whitespace_chars_def detect_input_Name
      in_formula_alphabet_def has_smiles_marker_def formula_alphabet_def)

section \<open>Properties of the rate limiter\<close>

lemma float_limit_bounds: "2 ^ 1023 < float_limit" "float_limit \<le> 2 ^ 1024" "0 < float_limit"
  by (simp_all add: float_limit_def)

lemma float_of_nat_power2:
  "float_of_nat (2 ^ n) = (if n < 1024 then Inr (2 ^ n) else Inl OverflowError)"
proof (cases "n < 1024")
  case True
  then have "n \<le> 1023" by simp
  then have "(2::nat) ^ n \<le> 2 ^ 1023" by (intro power_increasing) simp_all
  then have "(2::nat) ^ n < float_limit" using float_limit_bounds(1) by linarith
  with True show ?thesis by (simp add: float_of_nat_def)
next
  case False
  then have "1024 \<le> n" by simp
  then have "(2::nat) ^ 1024 \<le> 2 ^ n" by (intro power_increasing) simp_all
  then have "float_limit \<le> 2 ^ n" using float_limit_bounds(2) by linarith
  with False show ?thesis by (simp add: float_of_nat_def)
qed

lemma float_of_nat_0: "float_of_nat 0 = Inr 0"
  using float_limit_bounds(3) by (simp add: float_of_nat_def)

lemma record_error_funpow:
  "consecutive_errors ((record_error ^^ n) rl) = consecutive_errors rl + n \<and>
   min_delay ((record_error ^^ n) rl) = min_delay rl \<and>
   max_delay ((record_error ^^ n) rl) = max_delay rl \<and>
   adaptive ((record_error ^^ n) rl) = adaptive rl"
  by (induction n) (simp_all add: record_error_def)

text \<open>
  Below 1024 consecutive errors the delay of an adaptive limiter is
  \<open>min(min_delay * 2^consecutive_errors, max_delay)\<close>; without errors, and with a
  success streak that converts to a float, it is
  \<open>max(min_delay, max_delay / (1 + success_streak * 0.1))\<close>.
\<close>

lemma wait_delay_errors:
  assumes "adaptive rl" "0 < consecutive_errors rl" "consecutive_errors rl < 1024"
  shows "wait_delay rl u = Inr (min (min_delay rl * 2 ^ consecutive_errors rl) (max_delay rl))"
  using assms by (simp add: wait_delay_def float_of_nat_power2)

lemma wait_delay_successes:
  assumes "adaptive rl" "consecutive_errors rl = 0" "success_streak rl < float_limit"
  shows "wait_delay rl u =
           Inr (max (min_delay rl) (max_delay rl / (1 + real (success_streak rl) * 0.1)))"
  using assms by (simp add: wait_delay_def float_of_nat_def)

lemma wait_delay_overflow:
  assumes "adaptive rl" "1024 \<le> consecutive_errors rl"
  shows "wait_delay rl u = Inl OverflowError" and "wait rl now u = Inl OverflowError"
proof -
  show d: "wait_delay rl u = Inl OverflowError"
    using assms by (simp add: wait_delay_def float_of_nat_power2)
  show "wait rl now u = Inl OverflowError" by (simp add: wait_def d)
qed

lemma wait_delay_three_errors:
  "wait_delay (record_error (record_error (record_error (new_RateLimiter lo hi True)))) u =
     Inr (min (lo * 8) hi)"
proof -
  let ?rl = "record_error (record_error (record_error (new_RateLimiter lo hi True)))"
  have "adaptive ?rl" "consecutive_errors ?rl = 3" "min_delay ?rl = lo" "max_delay ?rl = hi"
    by (simp_all add: record_error_def new_RateLimiter_def)
  then show ?thesis using wait_delay_errors [of ?rl u] by simp
qed

lemma record_success_resets:
  "consecutive_errors (record_success rl) = 0 \<and>
   success_streak (record_success rl) = success_streak rl + 1 \<and>
   consecutive_errors (record_error rl) = consecutive_errors rl + 1 \<and>
   success_streak (record_error rl) = 0"
  by (simp add: record_success_def record_error_def)

lemma wait_delay_range:
  assumes "wait_delay rl u = Inr delay" "adaptive rl" "0 \<le> min_delay rl"
    "min_delay rl \<le> max_delay rl"
  shows "min_delay rl \<le> delay \<and> delay \<le> max_delay rl"
proof (cases "consecutive_errors rl > 0")
  case True
  have "1 \<le> (2::real) ^ consecutive_errors rl" by simp
  then have "min_delay rl * 1 \<le> min_delay rl * 2 ^ consecutive_errors rl"
    using assms(3) by (rule mult_left_mono)
  with True assms show ?thesis
    by (auto simp: wait_delay_def float_of_nat_def split: if_splits)
next
  case False
  have m: "0 \<le> max_delay rl" using assms by simp
  have "1 \<le> 1 + real (success_streak rl) * 0.1" by simp
  then have "max_delay rl / (1 + real (success_streak rl) * 0.1) \<le> max_delay rl / 1"
    using m by (intro divide_left_mono) simp_all
  with False assms show ?thesis
    by (auto simp: wait_delay_def float_of_nat_def split: if_splits)
qed

text \<open>
  C3. The claim gives the delay \<open>min(min_delay * 2^consecutive_errors, max_delay)\<close>
  for every positive number of consecutive errors. The code does not compute it from 1024
  consecutive errors on: after 1024 \<open>record_error()\<close> calls on a fresh limiter with
  delays 1.0 and 3.0, the computation of the delay raises \<open>OverflowError\<close>, and so does
  \<open>wait()\<close>, where the claim gives the delay 3.0.
\<close>

theorem rate_limiter_overflow:
  "adaptive ((record_error ^^ 1024) (new_RateLimiter 1 3 True)) \<and>
   consecutive_errors ((record_error ^^ 1024) (new_RateLimiter 1 3 True)) = 1024 \<and>
   wait_delay ((record_error ^^ 1024) (new_RateLimiter 1 3 True)) u = Inl OverflowError \<and>
   wait ((record_error ^^ 1024) (new_RateLimiter 1 3 True)) now u = Inl OverflowError \<and>
   wait_delay ((record_error ^^ 1023) (new_RateLimiter 1 3 True)) u = Inr 3"
proof -
  let ?rl = "(record_error ^^ 1024) (new_RateLimiter 1 3 True)"
  let ?rl' = "(record_error ^^ 1023) (new_RateLimiter 1 3 True)"
  have a: "adaptive ?rl" "consecutive_errors ?rl = 1024"
    using record_error_funpow [of 1024 "new_RateLimiter 1 3 True"]
    by (simp_all add: new_RateLimiter_def)
  have b: "adaptive ?rl'" "consecutive_errors ?rl' = 1023" "min_delay ?rl' = 1"
    "max_delay ?rl' = 3"
    using record_error_funpow [of 1023 "new_RateLimiter 1 3 True"]
    by (simp_all add: new_RateLimiter_def)
  have "(1::real) \<le> 2 ^ 1023" by (rule one_le_power) simp
  then have c: "min (1 * (2::real) ^ 1023) 3 = 3"
    using power_increasing [of 2 1023 "2::real"] by simp
  have d: "wait_delay ?rl' u = Inr 3"
    using wait_delay_errors [of ?rl' u] b c by simp
  have e: "1024 \<le> consecutive_errors ?rl" using a by simp
  show ?thesis
    using a d wait_delay_overflow [OF a(1) e] by simp
qed

section \<open>Properties of the two fetch functions\<close>

lemma backoff_raises_iff: "backoff_raises attempt \<longleftrightarrow> 1024 \<le> attempt"
  by (auto simp: backoff_raises_def float_of_nat_power2)

lemma fetch_loop_200:
  "int attempt < max_retries \<Longrightarrow> attempt < 1024 \<Longrightarrow> net attempt = Response 200 text \<Longrightarrow>
   fetch_loop net addr max_retries attempt = Inr text"
  by (subst fetch_loop.simps) (simp add: backoff_raises_iff)



















text \<open>
  A limiter that has counted 1022 consecutive errors: the first two attempts receive the
  status 500, then \<open>wait()\<close> raises before the third request is sent, and the exception
  leaves \<open>_make_request\<close> without a retry. The third response is never received.
\<close>

lemma make_request_limiter_overflow:
  "make_request
     (\<lambda>k. \<lparr>clock = 10 * real k, draw = 0,
            reply = (if k = 3 then ReqResponse 200 ''third'' else ReqResponse 500 ''no'')\<rparr>)
     \<lparr>rate_limiter = \<lparr>min_delay = 1, max_delay = 3, adaptive = True, last_request_time = 0,
                       consecutive_errors = 1022, success_streak = 0\<rparr>,
      calls = [], received = []\<rparr> =
   (Inl (WaitRaised OverflowError),
    \<lparr>rate_limiter = \<lparr>min_delay = 1, max_delay = 3, adaptive = True, last_request_time = 20,
                      consecutive_errors = 1024, success_streak = 0\<rparr>,
     calls = [Wait, RecordError, Wait, RecordError, Wait], received = [500, 500]\<rparr>)"
  unfolding make_request_def
  apply (subst retrying.simps)
  apply (simp add: make_request_body_def wait_def wait_delay_def float_of_nat_def float_limit_def
      sleep_overflows_def new_RateLimiter_def record_error_def record_success_def
      stop_after_attempt_def)
  apply (subst retrying.simps)
  apply (simp add: make_request_body_def wait_def wait_delay_def float_of_nat_def float_limit_def
      sleep_overflows_def new_RateLimiter_def record_error_def record_success_def
      stop_after_attempt_def)
  apply (subst retrying.simps)
  apply (simp add: make_request_body_def wait_def wait_delay_def float_of_nat_def float_limit_def
      sleep_overflows_def new_RateLimiter_def record_error_def record_success_def
      stop_after_attempt_def)
  done



section \<open>Properties of the search\<close>

lemma search_by_molecule_fetch_error:
  assumes "fetch_with_retry (net SEARCH_URL (search_params molecule stype pg pg_size)) SEARCH_URL 3 = Inl e"
  shows "search_by_molecule net selector molecule stype pg pg_size =
           error_payload (FetchFailed e) molecule stype pg pg_size"
  using assms by (simp add: search_by_molecule_def)

lemma search_by_molecule_extraction_error:
  assumes "fetch_with_retry (net SEARCH_URL (search_params molecule stype pg pg_size)) SEARCH_URL 3 = Inr html"
    and "selector html = None"
  shows "search_by_molecule net selector molecule stype pg pg_size =
           error_payload ExtractionFailed molecule stype pg pg_size"
  using assms by (simp add: search_by_molecule_def)

lemma search_by_molecule_count_error:
  assumes "fetch_with_retry (net SEARCH_URL (search_params molecule stype pg pg_size)) SEARCH_URL 3 = Inr html"
    and "selector html = Some d"
    and "extract_total_results d = Inl e"
  shows "search_by_molecule net selector molecule stype pg pg_size =
           error_payload (TotalCountFailed e) molecule stype pg pg_size"
  using assms by (simp add: search_by_molecule_def Let_def)

lemma search_by_molecule_zero_page_size:
  assumes "fetch_with_retry (net SEARCH_URL (search_params molecule stype pg 0)) SEARCH_URL 3 = Inr html"
    and "selector html = Some d"
    and "extract_total_results d = Inr total0"
  shows "search_by_molecule net selector molecule stype pg 0 =
           error_payload ZeroDivisionError molecule stype pg 0"
  using assms by (simp add: search_by_molecule_def Let_def)

lemma search_by_molecule_success:
  assumes "fetch_with_retry (net SEARCH_URL (search_params molecule stype pg pg_size)) SEARCH_URL 3 = Inr html"
    and "selector html = Some d"
    and "extract_total_results d = Inr total0"
    and "pg_size \<noteq> 0"
  shows "search_by_molecule net selector molecule stype pg pg_size =
     (let found = parse_search_results d;
          total = (if total0 = 0 \<and> found \<noteq> [] then int (length found) else total0);
          pages = max 1 ((total + pg_size - 1) div pg_size)
      in \<lparr>status = ''success'', error = None, results = map add_url found,
          total_results = total, page = pg, page_size = pg_size,
          total_pages = pages, has_next = (pg < pages), has_previous = (pg > 1),
          next_page = (if pg < pages then Some (pg + 1) else None),
          previous_page = (if pg > 1 then Some (pg - 1) else None),
          query = molecule, search_type = stype\<rparr>)"
  using assms unfolding search_by_molecule_def Let_def by simp

text \<open>
  C10. The query string does not depend on \<open>search_type\<close>, nor do the parameters of
  the request; two searches that differ only in \<open>search_type\<close> return payloads that
  differ only in the field echoing it.
\<close>

theorem search_type_noninterference:
  "build_molecule_query molecule st1 = build_molecule_query molecule st2 \<and>
   search_params molecule st1 pg pg_size = search_params molecule st2 pg pg_size \<and>
   search_by_molecule net selector molecule st1 pg pg_size =
     (search_by_molecule net selector molecule st2 pg pg_size)\<lparr>search_type := st1\<rparr>"
proof -
  have q: "build_molecule_query molecule st1 = build_molecule_query molecule st2"
    by (simp add: build_molecule_query_def)
  have p: "search_params molecule st1 pg pg_size = search_params molecule st2 pg pg_size"
    by (simp add: search_params_def q)
  have "search_by_molecule net selector molecule st1 pg pg_size =
     (search_by_molecule net selector molecule st2 pg pg_size)\<lparr>search_type := st1\<rparr>"
  proof (cases "fetch_with_retry (net SEARCH_URL (search_params molecule st2 pg pg_size)) SEARCH_URL 3")
    case (Inl e)
    show ?thesis
      using search_by_molecule_fetch_error [of net molecule st2 pg pg_size e selector, OF Inl]
        search_by_molecule_fetch_error [of net molecule st1 pg pg_size e selector, OF Inl [folded p]]
      by (simp add: error_payload_def)
  next
    case (Inr html)
    show ?thesis
    proof (cases "selector html")
      case None
      show ?thesis
        using search_by_molecule_extraction_error [of net molecule st2 pg pg_size html selector, OF Inr None]
          search_by_molecule_extraction_error [of net molecule st1 pg pg_size html selector, OF Inr [folded p] None]
        by (simp add: error_payload_def)
    next
      case (Some d)
      show ?thesis
      proof (cases "extract_total_results d")
        case count_raises: (Inl x)
        show ?thesis
          using search_by_molecule_count_error
              [of net molecule st2 pg pg_size html selector d x, OF Inr Some count_raises]
            search_by_molecule_count_error
              [of net molecule st1 pg pg_size html selector d x, OF Inr [folded p] Some count_raises]
          by (simp add: error_payload_def)
      next
        case count: (Inr total0)
        show ?thesis
        proof (cases "pg_size = 0")
          case True
          show ?thesis
            using search_by_molecule_zero_page_size
                [of net molecule st2 pg html selector d total0, OF Inr [unfolded True] Some count]
              search_by_molecule_zero_page_size
                [of net molecule st1 pg html selector d total0,
                 OF Inr [folded p, unfolded True] Some count]
            by (simp add: error_payload_def True)
        next
          case False
          show ?thesis
            using search_by_molecule_success
                [of net molecule st2 pg pg_size html selector d total0, OF Inr Some count False]
              search_by_molecule_success
                [of net molecule st1 pg pg_size html selector d total0,
                 OF Inr [folded p] Some count False]
            by (simp add: Let_def)
        qed
      qed
    qed
  qed
  with q p show ?thesis by simp
qed

section \<open>Properties of the error payload\<close>

lemma fetch_all_timeouts:
  "fetch_with_retry (\<lambda>k. TimeoutException) addr 3 = Inl TimeoutFailure"
proof -
  have "fetch_loop (\<lambda>k. TimeoutException) addr 3 0 = fetch_loop (\<lambda>k. TimeoutException) addr 3 1"
    by (subst fetch_loop.simps) (simp add: backoff_raises_iff)
  also have "\<dots> = fetch_loop (\<lambda>k. TimeoutException) addr 3 2"
    by (subst fetch_loop.simps) (simp add: numeral_2_eq_2 backoff_raises_iff)
  also have "\<dots> = Inl TimeoutFailure"
    by (subst fetch_loop.simps) (simp add: backoff_raises_iff)
  finally show ?thesis by (simp add: fetch_with_retry_def)
qed

lemma error_payload_fields:
  "status (error_payload e molecule stype pg pg_size) = ''error'' \<and>
   error (error_payload e molecule stype pg pg_size) = Some e \<and>
   results (error_payload e molecule stype pg pg_size) = [] \<and>
   total_results (error_payload e molecule stype pg pg_size) = 0 \<and>
   total_pages (error_payload e molecule stype pg pg_size) = 0 \<and>
   \<not> has_next (error_payload e molecule stype pg pg_size) \<and>
   \<not> has_previous (error_payload e molecule stype pg pg_size) \<and>
   page (error_payload e molecule stype pg pg_size) = pg \<and>
   page_size (error_payload e molecule stype pg pg_size) = pg_size"
  by (simp add: error_payload_def)

text \<open>
  C9. Whatever exception is raised inside the \<open>try\<close> block of \<open>search_by_molecule\<close>
  (by the fetch, by the parser, by the conversion of the total count, by the page
  arithmetic), the function returns a payload with status \<open>error\<close>, no results,
  \<open>total_results\<close> 0, \<open>total_pages\<close> 0, \<open>has_next\<close> and \<open>has_previous\<close> false, and
  the page and page size requested.
\<close>

theorem search_by_molecule_error_payload:
  "((\<exists>e. fetch_with_retry (net SEARCH_URL (search_params molecule stype pg pg_size))
            SEARCH_URL 3 = Inl e) \<or>
    (\<exists>html. fetch_with_retry (net SEARCH_URL (search_params molecule stype pg pg_size))
            SEARCH_URL 3 = Inr html \<and>
            (selector html = None \<or> pg_size = 0 \<or>
             (\<exists>d x. selector html = Some d \<and> extract_total_results d = Inl x))) \<longrightarrow>
      status (search_by_molecule net selector molecule stype pg pg_size) = ''error'' \<and>
      error (search_by_molecule net selector molecule stype pg pg_size) \<noteq> None \<and>
      results (search_by_molecule net selector molecule stype pg pg_size) = [] \<and>
      total_results (search_by_molecule net selector molecule stype pg pg_size) = 0 \<and>
      total_pages (search_by_molecule net selector molecule stype pg pg_size) = 0 \<and>
      \<not> has_next (search_by_molecule net selector molecule stype pg pg_size) \<and>
      \<not> has_previous (search_by_molecule net selector molecule stype pg pg_size) \<and>
      page (search_by_molecule net selector molecule stype pg pg_size) = pg \<and>
      page_size (search_by_molecule net selector molecule stype pg pg_size) = pg_size) \<and>
   (fetch_with_retry (net SEARCH_URL (search_params molecule stype pg pg_size)) SEARCH_URL 3
      = Inl e \<longrightarrow>
      error (search_by_molecule net selector molecule stype pg pg_size) = Some (FetchFailed e))"
proof -
  let ?f = "fetch_with_retry (net SEARCH_URL (search_params molecule stype pg pg_size)) SEARCH_URL 3"
  let ?r = "search_by_molecule net selector molecule stype pg pg_size"
  have 1: "?r = error_payload (FetchFailed x) molecule stype pg pg_size" if "?f = Inl x" for x
    using that by (rule search_by_molecule_fetch_error)
  have 2: "?r = error_payload ExtractionFailed molecule stype pg pg_size"
    if "?f = Inr html" "selector html = None" for html
    using that by (rule search_by_molecule_extraction_error)
  have 3: "?r = error_payload (TotalCountFailed x) molecule stype pg pg_size"
    if "?f = Inr html" "selector html = Some d" "extract_total_results d = Inl x" for html d x
    using that by (rule search_by_molecule_count_error)
  have 4: "?r = error_payload ZeroDivisionError molecule stype pg pg_size"
    if "?f = Inr html" "selector html = Some d" "extract_total_results d = Inr t" "pg_size = 0"
    for html d t
    using that search_by_molecule_zero_page_size [of net molecule stype pg html selector d t]
    by simp
  have 5: "\<exists>x. ?r = error_payload x molecule stype pg pg_size"
    if "?f = Inr html" "pg_size = 0" for html
  proof (cases "selector html")
    case None
    then show ?thesis using 2 that by blast
  next
    case (Some d)
    then show ?thesis using 3 [of html d] 4 [of html d] that by (cases "extract_total_results d") blast+
  qed
  have "\<exists>x. ?r = error_payload x molecule stype pg pg_size"
    if "(\<exists>e. ?f = Inl e) \<or>
        (\<exists>html. ?f = Inr html \<and>
           (selector html = None \<or> pg_size = 0 \<or>
            (\<exists>d x. selector html = Some d \<and> extract_total_results d = Inl x)))"
    using that 1 2 3 5 by blast
  then show ?thesis using 1 error_payload_fields by fastforce
qed

theorem search_by_molecule_error_payload_witness:
  "fetch_with_retry ((\<lambda>a p k. TimeoutException) SEARCH_URL (search_params ''glucose'' ''exact'' 2 10))
     SEARCH_URL 3 = Inl TimeoutFailure \<and>
   status (search_by_molecule (\<lambda>a p k. TimeoutException) (\<lambda>h. None) ''glucose'' ''exact'' 2 10) = ''error'' \<and>
   error (search_by_molecule (\<lambda>a p k. TimeoutException) (\<lambda>h. None) ''glucose'' ''exact'' 2 10) =
     Some (FetchFailed TimeoutFailure) \<and>
   results (search_by_molecule (\<lambda>a p k. TimeoutException) (\<lambda>h. None) ''glucose'' ''exact'' 2 10) = [] \<and>
   total_results (search_by_molecule (\<lambda>a p k. TimeoutException) (\<lambda>h. None) ''glucose'' ''exact'' 2 10) = 0 \<and>
   page (search_by_molecule (\<lambda>a p k. TimeoutException) (\<lambda>h. None) ''glucose'' ''exact'' 2 10) = 2 \<and>
   page_size (search_by_molecule (\<lambda>a p k. TimeoutException) (\<lambda>h. None) ''glucose'' ''exact'' 2 10) = 10"
proof -
  have f: "fetch_with_retry ((\<lambda>a p k. TimeoutException) SEARCH_URL (search_params ''glucose'' ''exact'' 2 10))
     SEARCH_URL 3 = Inl TimeoutFailure"
    using fetch_all_timeouts [of SEARCH_URL] by simp
  show ?thesis
    using f search_by_molecule_error_payload
      [of "\<lambda>a p k. TimeoutException" "''glucose''" "''exact''" 2 10 "\<lambda>h. None" TimeoutFailure]
    by simp
qed

section \<open>Properties of the field extraction\<close>

lemma first_match_skip:
  "(\<forall>s \<in> set pre. \<not> truthy (get_first (q s))) \<Longrightarrow>
   first_match q (pre @ rest) v = first_match q rest (if pre = [] then v else get_first (q (last pre)))"
  by (induction pre arbitrary: v) (auto simp: Let_def)

lemma first_match_first_truthy:
  assumes "\<forall>s \<in> set pre. \<not> truthy (get_first (q s))" "truthy (get_first (q sel))"
  shows "first_match q (pre @ sel # post) v = get_first (q sel)"
  using first_match_skip [OF assms(1), of "sel # post" v] assms(2) by (simp add: Let_def)

lemma first_match_none_truthy:
  "(\<forall>s \<in> set sels. \<not> truthy (get_first (q s))) \<Longrightarrow> \<not> truthy v \<Longrightarrow>
   \<not> truthy (first_match q sels v)"
  by (induction sels arbitrary: v) (auto simp: Let_def)

lemma extend_all_concat: "extend_all q sels acc = acc @ concat (map q sels)"
  by (induction sels arbitrary: acc) (auto simp: Let_def)

lemma parse_item_fields:
  assumes "parse_item it = Some r"
  shows "title r = stripped_if_truthy (first_match (icss it) title_selectors None)"
    and "publication_date r = stripped_if_truthy (first_match (icss it) date_selectors None)"
    and "applicants r = strip_nonempty (concat (map (icss it) applicant_selectors))"
    and "inventors r = strip_nonempty (concat (map (icss it) inventor_selectors))"
    and "ipc_codes r = strip_nonempty (concat (map (icss it) ipc_selectors))"
    and "publication_number r = publication_number_of it"
    and "patent_id r = (case doc_id_of it of Some d \<Rightarrow> Some d | None \<Rightarrow> publication_number_of it)"
  using assms by (auto simp: parse_item_def Let_def extend_all_concat split: if_splits)

lemma title_second_selector:
  assumes "parse_item it = Some r" "\<not> truthy (get_first (icss it ''.title::text''))"
    "icss it ''h3::text'' = t # ts" "t \<noteq> []"
  shows "title r = Some (strip t)"
proof -
  have f: "first_match (icss it) title_selectors None = Some t"
    using assms(2-4) by (simp add: title_selectors_def Let_def get_first_def truthy_def)
  show ?thesis
    unfolding parse_item_fields(1) [OF assms(1)] f
    using assms(4) by (simp add: stripped_if_truthy_def truthy_def)
qed

lemmas parser_defs =
  parse_item_def publication_number_of_def doc_id_of_def pub_selectors_def pub_xpath_def
  title_selectors_def abstract_selectors_def applicant_selectors_def inventor_selectors_def
  date_selectors_def ipc_selectors_def href_selector_def get_first_def truthy_def
  stripped_if_truthy_def strip_nonempty_def strip_def py_isspace_def whitespace_chars_def
  Let_def

lemma parse_acme_item:
  "parse_item acme_item =
     Some \<lparr>publication_number = Some ''WO2023123456A1'', patent_id = Some ''WO2023123456A1'',
           title = None, abstract = None, applicants = [''ACME'', ''ACME''], inventors = [],
           publication_date = None, ipc_codes = [], url = None\<rparr>"
  by (simp add: parser_defs acme_item_def)

lemma parse_aspirin_item:
  "parse_item aspirin_item =
     Some \<lparr>publication_number = Some ''WO2020001'', patent_id = Some ''WO2020001'',
           title = Some ''Aspirin salts'', abstract = None, applicants = [''Bayer'', ''Merck''],
           inventors = [], publication_date = None, ipc_codes = [], url = None\<rparr>"
  by (simp add: parser_defs aspirin_item_def)

lemma parse_two_item_page:
  "parse_search_results two_item_page =
     [\<lparr>publication_number = Some ''WO2023123456A1'', patent_id = Some ''WO2023123456A1'',
       title = None, abstract = None, applicants = [''ACME'', ''ACME''], inventors = [],
       publication_date = None, ipc_codes = [], url = None\<rparr>,
      \<lparr>publication_number = Some ''WO2020001'', patent_id = Some ''WO2020001'',
       title = Some ''Aspirin salts'', abstract = None, applicants = [''Bayer'', ''Merck''],
       inventors = [], publication_date = None, ipc_codes = [], url = None\<rparr>]"
  by (simp add: parse_search_results_def two_item_page_def result_selectors_def
      parse_acme_item parse_aspirin_item)

text \<open>
  C4, as amended. A single-valued field is the text, stripped, of the first selector of
  its cascade whose first selected text is non-empty: when the first title selector
  selects nothing and the second selects a non-empty text, the title is that text
  stripped. A multi-valued field (applicants, inventors, IPC codes) is the concatenation,
  in the order of the cascade, of the texts that every selector selects, each stripped and
  the empty ones dropped; a value selected twice is kept twice.
\<close>

theorem field_cascades:
  "((\<forall>s \<in> set pre. \<not> truthy (get_first (q s))) \<and> truthy (get_first (q sel)) \<longrightarrow>
      first_match q (pre @ sel # post) None = get_first (q sel)) \<and>
   ((\<forall>s \<in> set sels. \<not> truthy (get_first (q s))) \<longrightarrow> \<not> truthy (first_match q sels None)) \<and>
   (parse_item it = Some r \<longrightarrow>
      title r = stripped_if_truthy (first_match (icss it) title_selectors None) \<and>
      publication_date r = stripped_if_truthy (first_match (icss it) date_selectors None) \<and>
      applicants r = strip_nonempty (concat (map (icss it) applicant_selectors)) \<and>
      inventors r = strip_nonempty (concat (map (icss it) inventor_selectors)) \<and>
      ipc_codes r = strip_nonempty (concat (map (icss it) ipc_selectors))) \<and>
   (parse_item it = Some r \<and> \<not> truthy (get_first (icss it ''.title::text'')) \<and>
    icss it ''h3::text'' = t # ts \<and> t \<noteq> [] \<longrightarrow> title r = Some (strip t))"
proof -
  have "\<not> truthy (first_match q sels None)" if "\<forall>s \<in> set sels. \<not> truthy (get_first (q s))"
    using that first_match_none_truthy [of sels q None] by (simp add: truthy_def)
  then show ?thesis
    using first_match_first_truthy [of pre q sel post None] parse_item_fields [of it r]
      title_second_selector [of it r t ts]
    by blast
qed

theorem field_cascades_witness:
  "\<not> truthy (get_first (icss aspirin_item ''.title::text'')) \<and>
   icss aspirin_item ''h3::text'' = ['' Aspirin salts ''] \<and>
   map_option title (parse_item aspirin_item) = Some (Some ''Aspirin salts'') \<and>
   icss aspirin_item ''.applicant::text'' = [''Bayer ''] \<and>
   icss aspirin_item ''.applicant-name::text'' = [''Merck''] \<and>
   map_option applicants (parse_item aspirin_item) = Some [''Bayer'', ''Merck''] \<and>
   first_match (icss aspirin_item) ([''.title::text''] @ ''h3::text'' # drop 2 title_selectors) None
     = Some '' Aspirin salts '' \<and>
   \<not> truthy (first_match (icss aspirin_item) date_selectors None)"
proof -
  let ?r = "\<lparr>publication_number = Some ''WO2020001'', patent_id = Some ''WO2020001'',
           title = Some ''Aspirin salts'', abstract = None, applicants = [''Bayer'', ''Merck''],
           inventors = [], publication_date = None, ipc_codes = [], url = None\<rparr>"
  have a: "\<not> truthy (get_first (icss aspirin_item ''.title::text''))"
    and b: "icss aspirin_item ''h3::text'' = ['' Aspirin salts '']"
    and c: "icss aspirin_item ''.applicant::text'' = [''Bayer '']"
    and d: "icss aspirin_item ''.applicant-name::text'' = [''Merck'']"
    by (simp_all add: aspirin_item_def get_first_def truthy_def)
  have s: "strip '' Aspirin salts '' = ''Aspirin salts''"
    by (simp add: strip_def py_isspace_def whitespace_chars_def)
  have n: "'' Aspirin salts '' \<noteq> []" by simp
  note fc = field_cascades [of "[]" "icss aspirin_item" "''h3::text''" "[]" "[]" aspirin_item ?r
        "'' Aspirin salts ''" "[]"]
  have "title ?r = Some (strip '' Aspirin salts '')"
    using fc parse_aspirin_item a b n by blast
  then have t: "map_option title (parse_item aspirin_item) = Some (Some ''Aspirin salts'')"
    unfolding parse_aspirin_item s by simp
  have "applicants ?r = strip_nonempty (concat (map (icss aspirin_item) applicant_selectors))"
    using fc parse_aspirin_item by blast
  then have u: "map_option applicants (parse_item aspirin_item) = Some [''Bayer'', ''Merck'']"
    unfolding parse_aspirin_item by simp
  have g: "truthy (get_first (icss aspirin_item ''h3::text''))"
    "get_first (icss aspirin_item ''h3::text'') = Some '' Aspirin salts ''"
    by (simp_all add: b get_first_def truthy_def)
  have "\<forall>s \<in> set [''.title::text'']. \<not> truthy (get_first (icss aspirin_item s))"
    using a by simp
  then have v: "first_match (icss aspirin_item)
                  ([''.title::text''] @ ''h3::text'' # drop 2 title_selectors) None
                = Some '' Aspirin salts ''"
    using field_cascades [of "[''.title::text'']" "icss aspirin_item" "''h3::text''"
        "drop 2 title_selectors" "[]" aspirin_item ?r "'' Aspirin salts ''" "[]"] g
    by metis
  have "\<forall>s \<in> set date_selectors. \<not> truthy (get_first (icss aspirin_item s))"
    by (simp add: date_selectors_def aspirin_item_def get_first_def truthy_def)
  then have w: "\<not> truthy (first_match (icss aspirin_item) date_selectors None)"
    using field_cascades [of "[]" "icss aspirin_item" "''h3::text''" "[]" date_selectors
        aspirin_item ?r "'' Aspirin salts ''" "[]"]
    by blast
  show ?thesis using a b c d t u v w by blast
qed

text \<open>
  The claim as stated fails on an item whose applicant node is selected by two selectors
  of the cascade: the applicant is returned twice, where the union has it once.
\<close>

theorem applicants_duplicate_counterexample:
  "icss acme_item (applicant_selectors ! 0) = [''ACME''] \<and>
   icss acme_item (applicant_selectors ! 2) = [''ACME''] \<and>
   map_option applicants (parse_item acme_item) = Some [''ACME'', ''ACME''] \<and>
   ordered_union (map (icss acme_item) applicant_selectors) = [''ACME''] \<and>
   map_option applicants (parse_item acme_item) \<noteq>
     Some (ordered_union (map (icss acme_item) applicant_selectors))"
  by (simp add: parse_acme_item) (simp add: acme_item_def applicant_selectors_def ordered_union_def)

section \<open>Properties of record retention\<close>

lemma search_docId_nonempty: "search_docId h = Some g \<Longrightarrow> g \<noteq> []"
  by (induction h) (auto simp: Let_def split: if_splits)

lemma doc_id_of_nonempty: "doc_id_of it = Some g \<Longrightarrow> g \<noteq> []"
  by (auto simp: doc_id_of_def search_docId_nonempty split: option.splits if_splits)

lemma parse_item_Some_iff:
  "(\<exists>r. parse_item it = Some r) \<longleftrightarrow>
   doc_id_of it \<noteq> None \<or> truthy (publication_number_of it)"
  using doc_id_of_nonempty [of it]
  by (auto simp: parse_item_def Let_def truthy_def split: option.splits)

lemma parse_item_None_iff:
  "parse_item it = None \<longleftrightarrow> doc_id_of it = None \<and> \<not> truthy (publication_number_of it)"
  using parse_item_Some_iff [of it] by (cases "parse_item it") auto

lemma parse_item_patent_id:
  assumes "parse_item it = Some r"
  shows "truthy (patent_id r)"
proof (cases "doc_id_of it")
  case None
  then show ?thesis
    using assms parse_item_fields(6,7) [OF assms] parse_item_None_iff [of it] by simp
next
  case (Some g)
  then show ?thesis
    using parse_item_fields(7) [OF assms] doc_id_of_nonempty [OF Some] by (simp add: truthy_def)
qed

lemma parse_items_map_filter: "parse_items its = List.map_filter parse_item its"
  by (induction its) (auto simp: List.map_filter_simps split: option.splits)

lemma parse_items_set: "r \<in> set (parse_items its) \<longleftrightarrow> (\<exists>it \<in> set its. parse_item it = Some r)"
  by (induction its) (auto split: option.splits)

lemma parse_search_results_from_item:
  "r \<in> set (parse_search_results d) \<Longrightarrow> \<exists>it. parse_item it = Some r"
  by (auto simp: parse_search_results_def parse_items_set)

text \<open>
  C8, as amended. Every record that \<open>parse_search_results\<close> returns has a non-empty
  \<open>patent_id\<close>: the identifier of its detail link when there is one, and otherwise its
  publication number, which is then non-empty. An item with neither is left out of the
  list, which holds the other records in document order. A title is not required.
\<close>

theorem kept_records_have_identifier:
  "(r \<in> set (parse_search_results d) \<longrightarrow> (\<exists>pid. patent_id r = Some pid \<and> pid \<noteq> [])) \<and>
   (parse_item it = Some r \<and> doc_id_of it = None \<longrightarrow>
      patent_id r = publication_number r \<and> truthy (publication_number r)) \<and>
   (parse_item it = Some r \<and> doc_id_of it = Some g \<longrightarrow> patent_id r = Some g \<and> g \<noteq> []) \<and>
   (parse_item it = None \<longleftrightarrow> doc_id_of it = None \<and> \<not> truthy (publication_number_of it)) \<and>
   parse_items its = List.map_filter parse_item its"
proof -
  have 1: "\<exists>pid. patent_id r = Some pid \<and> pid \<noteq> []" if mem: "r \<in> set (parse_search_results d)"
  proof -
    obtain it' where "parse_item it' = Some r"
      using parse_search_results_from_item [OF mem] by blast
    then have "truthy (patent_id r)" by (rule parse_item_patent_id)
    then show ?thesis by (cases "patent_id r") (simp_all add: truthy_def)
  qed
  have 2: "patent_id r = publication_number r \<and> truthy (publication_number r)"
    if "parse_item it = Some r" "doc_id_of it = None"
    using that parse_item_fields(6,7) [OF that(1)] parse_item_patent_id [OF that(1)] by simp
  have 3: "patent_id r = Some g \<and> g \<noteq> []" if "parse_item it = Some r" "doc_id_of it = Some g"
    using that parse_item_fields(7) [OF that(1)] doc_id_of_nonempty [OF that(2)] by simp
  show ?thesis
    using 1 2 3 parse_item_None_iff [of it] parse_items_map_filter [of its] by blast
qed

theorem kept_records_have_identifier_witness:
  "parse_search_results two_item_page =
     [\<lparr>publication_number = Some ''WO2023123456A1'', patent_id = Some ''WO2023123456A1'',
       title = None, abstract = None, applicants = [''ACME'', ''ACME''], inventors = [],
       publication_date = None, ipc_codes = [], url = None\<rparr>,
      \<lparr>publication_number = Some ''WO2020001'', patent_id = Some ''WO2020001'',
       title = Some ''Aspirin salts'', abstract = None, applicants = [''Bayer'', ''Merck''],
       inventors = [], publication_date = None, ipc_codes = [], url = None\<rparr>] \<and>
   doc_id_of acme_item = None \<and> doc_id_of aspirin_item = Some ''WO2020001'' \<and>
   map_option patent_id (parse_item acme_item) = Some (Some ''WO2023123456A1'') \<and>
   map_option patent_id (parse_item aspirin_item) = Some (Some ''WO2020001'') \<and>
   parse_item \<lparr>icss = (\<lambda>sel. []), ixpath = (\<lambda>q. [])\<rparr> = None \<and>
   list_all (\<lambda>r. truthy (patent_id r)) (parse_search_results two_item_page)"
proof -
  let ?a = "\<lparr>publication_number = Some ''WO2023123456A1'', patent_id = Some ''WO2023123456A1'',
       title = None, abstract = None, applicants = [''ACME'', ''ACME''], inventors = [],
       publication_date = None, ipc_codes = [], url = None\<rparr>"
  let ?b = "\<lparr>publication_number = Some ''WO2020001'', patent_id = Some ''WO2020001'',
       title = Some ''Aspirin salts'', abstract = None, applicants = [''Bayer'', ''Merck''],
       inventors = [], publication_date = None, ipc_codes = [], url = None\<rparr>"
  let ?e = "\<lparr>icss = (\<lambda>sel. []), ixpath = (\<lambda>q. [])\<rparr>"
  have da: "doc_id_of acme_item = None"
    by (simp add: doc_id_of_def acme_item_def href_selector_def get_first_def)
  have db: "doc_id_of aspirin_item = Some ''WO2020001''"
    by (simp add: doc_id_of_def aspirin_item_def href_selector_def get_first_def
        py_isspace_def whitespace_chars_def Let_def)
  have de: "doc_id_of ?e = None \<and> \<not> truthy (publication_number_of ?e)"
    by (simp add: doc_id_of_def publication_number_of_def pub_selectors_def get_first_def
        truthy_def stripped_if_truthy_def Let_def)
  have a: "patent_id ?a = publication_number ?a"
    using kept_records_have_identifier [of ?a two_item_page acme_item "''x''" "[]"]
      parse_acme_item da by blast
  have b: "patent_id ?b = Some ''WO2020001''"
    using kept_records_have_identifier [of ?b two_item_page aspirin_item "''WO2020001''" "[]"]
      parse_aspirin_item db by blast
  have e: "parse_item ?e = None"
    using kept_records_have_identifier [of ?a two_item_page ?e "''x''" "[]"] de by blast
  have pa: "map_option patent_id (parse_item acme_item) = Some (Some ''WO2023123456A1'')"
    unfolding parse_acme_item using a by simp
  have pb: "map_option patent_id (parse_item aspirin_item) = Some (Some ''WO2020001'')"
    unfolding parse_aspirin_item using b by simp
  have "?a \<in> set (parse_search_results two_item_page)"
    "?b \<in> set (parse_search_results two_item_page)"
    by (simp_all add: parse_two_item_page)
  then have "truthy (patent_id ?a)" "truthy (patent_id ?b)"
    using kept_records_have_identifier [of ?a two_item_page acme_item "''x''" "[]"]
      kept_records_have_identifier [of ?b two_item_page acme_item "''x''" "[]"]
    by (auto simp: truthy_def)
  then have la: "list_all (\<lambda>r. truthy (patent_id r)) (parse_search_results two_item_page)"
    unfolding parse_two_item_page by simp
  show ?thesis using parse_two_item_page da db pa pb e la by blast
qed

text \<open>
  The claim as stated fails on the title: an item with a publication number and no title
  is returned, without the key \<open>title\<close>.
\<close>

theorem record_without_title_counterexample:
  "map title (parse_search_results two_item_page) = [None, Some ''Aspirin salts''] \<and>
   map publication_number (parse_search_results two_item_page) =
     [Some ''WO2023123456A1'', Some ''WO2020001'']"
  by (simp add: parse_two_item_page)

section \<open>Properties of the total count\<close>

lemma py_max_ge: "x \<le> py_max x xs \<and> (\<forall>m \<in> set xs. m \<le> py_max x xs)"
  unfolding py_max_def
proof (induction xs arbitrary: x)
  case Nil
  show ?case by simp
next
  case (Cons y ys)
  have "max y x \<le> fold max ys (max y x)" using Cons [of "max y x"] by blast
  then show ?case using Cons [of "max y x"] by auto
qed

lemma py_max_mem: "py_max x xs \<in> set (x # xs)"
  unfolding py_max_def
proof (induction xs arbitrary: x)
  case Nil
  show ?case by simp
next
  case (Cons y ys)
  then show ?case using Cons [of "max y x"] by (auto simp: max_def split: if_splits)
qed

text \<open>The conversions of a list of matches: all of them, or the \<open>ValueError\<close> of one.\<close>

lemma parse_int_Inr:
  "parse_int x = Inr m \<longleftrightarrow>
   length (remove_commas x) \<le> max_str_digits \<and> m = int_of_digits (remove_commas x)"
  by (auto simp: parse_int_def)

lemma parse_int_Inl:
  "parse_int x = Inl e \<longleftrightarrow> e = ValueError \<and> max_str_digits < length (remove_commas x)"
  by (auto simp: parse_int_def)

lemma parse_all_eq:
  "parse_all ns =
     (if \<forall>x \<in> set ns. length (remove_commas x) \<le> max_str_digits
      then Inr (map (\<lambda>x. int_of_digits (remove_commas x)) ns) else Inl ValueError)"
  by (induction ns) (auto simp: parse_int_def)

lemma max_number_None: "max_number t = Inr None \<longleftrightarrow> findall_numbers t [] = []"
  by (simp add: max_number_def parse_all_eq parse_int_def split: list.splits)

lemma max_number_Inl:
  "max_number t = Inl e \<longleftrightarrow>
   e = ValueError \<and> (\<exists>x \<in> set (findall_numbers t []). max_str_digits < length (remove_commas x))"
proof (cases "findall_numbers t []")
  case Nil
  then show ?thesis by (simp add: max_number_def)
next
  case (Cons x xs)
  then show ?thesis
    by (auto simp: max_number_def parse_all_eq parse_int_def not_le)
qed

lemma max_number_Some:
  assumes "max_number t = Inr (Some n)"
  shows "(\<exists>x \<in> set (findall_numbers t []). parse_int x = Inr n) \<and>
         (\<forall>x \<in> set (findall_numbers t []). \<exists>m. parse_int x = Inr m \<and> m \<le> n)"
proof (cases "findall_numbers t []")
  case Nil
  with assms show ?thesis by (simp add: max_number_def)
next
  case (Cons x xs)
  let ?conv = "\<lambda>x. int_of_digits (remove_commas x)"
  have ok: "\<forall>y \<in> set (x # xs). length (remove_commas y) \<le> max_str_digits"
    and n: "n = py_max (?conv x) (map ?conv xs)"
    using assms Cons
    by (auto simp: max_number_def parse_all_eq parse_int_def split: if_splits)
  have "n \<in> set (?conv x # map ?conv xs)"
    unfolding n by (rule py_max_mem)
  then have mem: "\<exists>y \<in> set (x # xs). parse_int y = Inr n"
    using ok by (auto simp: parse_int_Inr)
  have "\<forall>m \<in> set (?conv x # map ?conv xs). m \<le> n"
    unfolding n using py_max_ge [of "?conv x" "map ?conv xs"] by simp
  then have ge: "\<forall>y \<in> set (x # xs). \<exists>m. parse_int y = Inr m \<and> m \<le> n"
    using ok by (auto simp: parse_int_Inr)
  show ?thesis unfolding Cons using mem ge by blast
qed

lemma max_number_returns:
  assumes "findall_numbers t [] \<noteq> []"
    and "\<forall>x \<in> set (findall_numbers t []). length (remove_commas x) \<le> max_str_digits"
  shows "\<exists>n. max_number t = Inr (Some n)"
proof (cases "max_number t")
  case (Inl e)
  then show ?thesis using assms(2) by (auto simp: max_number_Inl)
next
  case (Inr r)
  then show ?thesis using assms(1) max_number_None [of t] by (cases r) auto
qed

text \<open>What a selector contributes to the count: the number of its first text.\<close>

lemma max_number_empty: "max_number [] = Inr None"
  by (simp add: max_number_def)

lemma total_from_selectors_first:
  assumes "\<forall>s \<in> set pre. \<forall>t. get_first (q s) = Some t \<longrightarrow> max_number t = Inr None"
    and "get_first (q sel) = Some t" and "max_number t = Inr (Some n)"
  shows "total_from_selectors q (pre @ sel # post) = Inr (Some n)"
  using assms
proof (induction pre)
  case Nil
  then have "t \<noteq> []" using max_number_empty by auto
  with Nil show ?case by (simp add: truthy_def)
next
  case (Cons s pre)
  then show ?case by (auto simp: Let_def split: option.splits)
qed

lemma total_from_selectors_raises:
  assumes "\<forall>s \<in> set pre. \<forall>t. get_first (q s) = Some t \<longrightarrow> max_number t = Inr None"
    and "get_first (q sel) = Some t" and "max_number t = Inl e"
  shows "total_from_selectors q (pre @ sel # post) = Inl e"
  using assms
proof (induction pre)
  case Nil
  then have "t \<noteq> []" using max_number_empty by auto
  with Nil show ?case by (simp add: truthy_def)
next
  case (Cons s pre)
  then show ?case by (auto simp: Let_def split: option.splits)
qed

lemma total_from_selectors_None:
  "total_from_selectors q sels = Inr None \<longleftrightarrow>
   (\<forall>s \<in> set sels. \<forall>t. get_first (q s) = Some t \<longrightarrow> max_number t = Inr None)"
proof (induction sels)
  case Nil
  show ?case by simp
next
  case (Cons s sels)
  show ?case
  proof (cases "get_first (q s)")
    case None
    then show ?thesis using Cons by (simp add: truthy_def)
  next
    case (Some t)
    show ?thesis
    proof (cases "t = []")
      case True
      then show ?thesis using Cons Some max_number_empty by (simp add: truthy_def)
    next
      case False
      then show ?thesis using Cons Some
        by (cases "max_number t") (auto simp: truthy_def split: option.splits)
    qed
  qed
qed

text \<open>A text of more than 4300 digits: the conversion raises.\<close>

lemma findall_numbers_digits:
  "\<forall>c \<in> set ds. is_digit c \<Longrightarrow> cur \<noteq> [] \<Longrightarrow> findall_numbers ds cur = [cur @ ds]"
  by (induction ds arbitrary: cur) simp_all

lemma findall_numbers_nines:
  "findall_numbers (replicate (Suc j) CHR ''9'') [] = [replicate (Suc j) CHR ''9'']"
proof -
  have "is_digit CHR ''9''" by (simp add: is_digit_def)
  then show ?thesis
    using findall_numbers_digits [of "replicate j CHR ''9''" "[CHR ''9'']"] by simp
qed

lemma max_number_too_long:
  assumes "4300 < k"
  shows "max_number (replicate k CHR ''9'') = Inl ValueError"
proof -
  obtain j where k: "k = Suc j" using assms by (cases k) simp_all
  show ?thesis
    using assms findall_numbers_nines [of j]
    by (simp add: k max_number_Inl remove_commas_def max_str_digits_def)
qed

lemma count_example: "max_number ''Showing 1 - 10 of 1,234 results'' = Inr (Some 1234)"
  by code_simp

lemma fetch_first_200:
  "fetch_with_retry (\<lambda>k. Response 200 body) addr 3 = Inr body"
  using fetch_loop_200 [of 0 3 "\<lambda>k. Response 200 body" body addr]
  by (simp add: fetch_with_retry_def)


text \<open>
  C7, as amended. The number that a text gives is the largest of the integers read from
  its matches of a digit followed by digits and commas, the commas taken out; it is given
  whenever the text has a match and no match has more than 4300 digits, and the
  conversion raises \<open>ValueError\<close> exactly when a match has more.
  \<open>extract_total_results\<close> returns the number of the first selector of its cascade whose
  first text gives one; when no selector and no text node of the page gives a number it
  returns 0. \<open>search_by_molecule\<close> replaces a count of 0 by the number of records
  parsed when there are any, and reports 0 otherwise.
\<close>

theorem total_count_max_or_zero:
  "(max_number t = Inr (Some n) \<longrightarrow>
      (\<exists>x \<in> set (findall_numbers t []). parse_int x = Inr n) \<and>
      (\<forall>x \<in> set (findall_numbers t []). \<exists>m. parse_int x = Inr m \<and> m \<le> n)) \<and>
   (findall_numbers t [] \<noteq> [] \<and>
    (\<forall>x \<in> set (findall_numbers t []). length (remove_commas x) \<le> max_str_digits) \<longrightarrow>
      (\<exists>k. max_number t = Inr (Some k))) \<and>
   (max_number t = Inr None \<longleftrightarrow> findall_numbers t [] = []) \<and>
   (max_number t = Inl ValueError \<longleftrightarrow>
      (\<exists>x \<in> set (findall_numbers t []). max_str_digits < length (remove_commas x))) \<and>
   ((\<forall>s \<in> set pre. \<forall>x. get_first (doc_css d s) = Some x \<longrightarrow> max_number x = Inr None) \<and>
    total_selectors = pre @ sel # post \<and> get_first (doc_css d sel) = Some t \<and>
    max_number t = Inr (Some n) \<longrightarrow> extract_total_results d = Inr n) \<and>
   ((\<forall>s \<in> set total_selectors. \<forall>x. get_first (doc_css d s) = Some x \<longrightarrow>
        max_number x = Inr None) \<and>
    total_from_texts (doc_xpath d all_text_xpath) = Inr None \<longrightarrow>
      extract_total_results d = Inr 0) \<and>
   (fetch_with_retry (net SEARCH_URL (search_params molecule stype pg pg_size)) SEARCH_URL 3
      = Inr html \<and> selector html = Some d \<and> extract_total_results d = Inr total0 \<and>
    pg_size \<noteq> 0 \<longrightarrow>
      total_results (search_by_molecule net selector molecule stype pg pg_size) =
        (if total0 = 0 \<and> parse_search_results d \<noteq> []
         then int (length (parse_search_results d)) else total0))"
proof -
  have 2: "\<exists>k. max_number t = Inr (Some k)"
    if "findall_numbers t [] \<noteq> []"
      "\<forall>x \<in> set (findall_numbers t []). length (remove_commas x) \<le> max_str_digits"
    using that by (rule max_number_returns)
  have 4: "max_number t = Inl ValueError \<longleftrightarrow>
      (\<exists>x \<in> set (findall_numbers t []). max_str_digits < length (remove_commas x))"
    by (simp add: max_number_Inl)
  have 5: "extract_total_results d = Inr n"
    if "\<forall>s \<in> set pre. \<forall>x. get_first (doc_css d s) = Some x \<longrightarrow> max_number x = Inr None"
      "total_selectors = pre @ sel # post" "get_first (doc_css d sel) = Some t"
      "max_number t = Inr (Some n)"
    using total_from_selectors_first [OF that(1,3,4), of post] that(2)
    by (simp add: extract_total_results_def)
  have 6: "extract_total_results d = Inr 0"
    if "\<forall>s \<in> set total_selectors. \<forall>x. get_first (doc_css d s) = Some x \<longrightarrow>
          max_number x = Inr None"
      "total_from_texts (doc_xpath d all_text_xpath) = Inr None"
    using that total_from_selectors_None [of "doc_css d" total_selectors]
    by (simp add: extract_total_results_def)
  have 7: "total_results (search_by_molecule net selector molecule stype pg pg_size) =
        (if total0 = 0 \<and> parse_search_results d \<noteq> []
         then int (length (parse_search_results d)) else total0)"
    if "fetch_with_retry (net SEARCH_URL (search_params molecule stype pg pg_size)) SEARCH_URL 3
      = Inr html" "selector html = Some d" "extract_total_results d = Inr total0"
      "pg_size \<noteq> 0"
    using search_by_molecule_success [of net molecule stype pg pg_size html selector d total0]
      that
    by (simp add: Let_def)
  show ?thesis
    using max_number_Some [of t n] max_number_None [of t] 2 4 5 6 7 by blast
qed

theorem total_count_max_or_zero_witness:
  "get_first (doc_css two_item_page ''.total-results::text'') = None \<and>
   get_first (doc_css two_item_page ''.result-count::text'') =
     Some ''Showing 1 - 10 of 1,234 results'' \<and>
   findall_numbers ''Showing 1 - 10 of 1,234 results'' [] = [''1'', ''10'', ''1,234''] \<and>
   max_number ''Showing 1 - 10 of 1,234 results'' = Inr (Some 1234) \<and>
   extract_total_results two_item_page = Inr 1234 \<and>
   total_results (search_by_molecule (\<lambda>a p k. Response 200 ''page'') (\<lambda>h. Some two_item_page)
                    ''glucose'' ''exact'' 1 10) = 1234 \<and>
   list_all (\<lambda>x. \<exists>m. parse_int x = Inr m \<and> m \<le> 1234) [''1'', ''10'', ''1,234''] \<and>
   (\<exists>k. max_number ''1 of 2'' = Inr (Some k)) \<and>
   max_number (replicate 4301 CHR ''9'') = Inl ValueError \<and>
   extract_total_results
     \<lparr>doc_items = (\<lambda>sel. []), doc_css = (\<lambda>sel. [''no results'']),
      doc_xpath = (\<lambda>q. [''no results''])\<rparr> = Inr 0"
proof -
  let ?t = "''Showing 1 - 10 of 1,234 results''"
  let ?net = "\<lambda>(a::string) (p::params) (k::nat). Response 200 ''page''"
  let ?sel = "\<lambda>h::string. Some two_item_page"
  have a: "get_first (doc_css two_item_page ''.total-results::text'') = None"
    and b: "get_first (doc_css two_item_page ''.result-count::text'') = Some ?t"
    by (simp_all add: two_item_page_def get_first_def)
  have c: "findall_numbers ?t [] = [''1'', ''10'', ''1,234'']" by code_simp
  have s: "total_selectors = [''.total-results::text''] @ ''.result-count::text'' # drop 2 total_selectors"
    by (simp add: total_selectors_def)
  have f: "fetch_with_retry (?net SEARCH_URL (search_params ''glucose'' ''exact'' 1 10)) SEARCH_URL 3
             = Inr ''page''"
    using fetch_first_200 [of "''page''" SEARCH_URL] by simp
  note tc = total_count_max_or_zero [of ?t 1234 "[''.total-results::text'']" two_item_page
      "''.result-count::text''" "drop 2 total_selectors" ?net "''glucose''" "''exact''" 1 10
      "''page''" ?sel 1234]
  have e: "extract_total_results two_item_page = Inr 1234"
    using tc a b s count_example by simp
  have "total_results (search_by_molecule ?net ?sel ''glucose'' ''exact'' 1 10) =
        (if (1234::int) = 0 \<and> parse_search_results two_item_page \<noteq> []
         then int (length (parse_search_results two_item_page)) else 1234)"
    using tc f e by simp
  then have r: "total_results (search_by_molecule ?net ?sel ''glucose'' ''exact'' 1 10) = 1234"
    by simp
  have "\<forall>x \<in> set (findall_numbers ?t []). \<exists>m. parse_int x = Inr m \<and> m \<le> 1234"
    using tc count_example by blast
  then have m: "list_all (\<lambda>x. \<exists>m. parse_int x = Inr m \<and> m \<le> 1234) [''1'', ''10'', ''1,234'']"
    unfolding c by (simp add: list_all_iff)
  have o: "findall_numbers ''1 of 2'' [] = [''1'', ''2'']" by code_simp
  have k: "\<exists>k. max_number ''1 of 2'' = Inr (Some k)"
    using total_count_max_or_zero [of "''1 of 2''" 0 "[]" two_item_page "''x''" "[]" ?net
        "''glucose''" "''exact''" 1 10 "''page''" ?sel 0] o
    by (simp add: remove_commas_def max_str_digits_def)
  have l: "max_number (replicate 4301 CHR ''9'') = Inl ValueError"
    using total_count_max_or_zero [of "replicate 4301 CHR ''9''" 0 "[]" two_item_page "''x''"
        "[]" ?net "''glucose''" "''exact''" 1 10 "''page''" ?sel 0]
      findall_numbers_nines [of 4300]
    by (simp add: remove_commas_def max_str_digits_def)
  let ?d = "\<lparr>doc_items = (\<lambda>sel. []), doc_css = (\<lambda>sel. [''no results'']),
             doc_xpath = (\<lambda>q. [''no results''])\<rparr>"
  have nn: "max_number ''no results'' = Inr None" by code_simp
  have z1: "\<forall>s \<in> set total_selectors. \<forall>x. get_first (doc_css ?d s) = Some x \<longrightarrow>
             max_number x = Inr None"
    using nn by (simp add: get_first_def)
  have z2: "total_from_texts (doc_xpath ?d all_text_xpath) = Inr None"
    using nn by simp
  have z: "extract_total_results ?d = Inr 0"
    using total_count_max_or_zero [of ?t 1234 "[]" ?d "''x''" "[]" ?net "''glucose''" "''exact''"
        1 10 "''page''" ?sel 0] z1 z2
    by blast
  show ?thesis using a b c count_example e r m k l z by blast
qed

text \<open>
  The claim as stated fails on a page without any number: the count returned is the
  integer 0, and the search reports \<open>total_results\<close> 0 with status \<open>success\<close>.
\<close>

theorem absent_count_is_zero_counterexample:
  "extract_total_results empty_page = Inr 0 \<and>
   status (search_by_molecule (\<lambda>a p k. Response 200 ''page'') (\<lambda>h. Some empty_page)
             ''glucose'' ''exact'' 1 10) = ''success'' \<and>
   total_results (search_by_molecule (\<lambda>a p k. Response 200 ''page'') (\<lambda>h. Some empty_page)
                    ''glucose'' ''exact'' 1 10) = 0"
proof -
  let ?net = "\<lambda>(a::string) (p::params) (k::nat). Response 200 ''page''"
  let ?sel = "\<lambda>h::string. Some empty_page"
  have e: "extract_total_results empty_page = Inr 0" by code_simp
  have p: "parse_search_results empty_page = []"
    by (simp add: parse_search_results_def empty_page_def result_selectors_def)
  have f: "fetch_with_retry (?net SEARCH_URL (search_params ''glucose'' ''exact'' 1 10)) SEARCH_URL 3
             = Inr ''page''"
    using fetch_first_200 [of "''page''" SEARCH_URL] by simp
  have n: "(10::int) \<noteq> 0" by simp
  show ?thesis
    using search_by_molecule_success [of ?net "''glucose''" "''exact''" 1 10 "''page''" ?sel
        empty_page 0] f n e p
    by (simp add: Let_def)
qed

section \<open>Properties of the deduplication\<close>

lemma dict_set_new: "k \<notin> set (map fst d) \<Longrightarrow> dict_set d k v = d @ [(k, v)]"
  by (induction d) auto

lemma keep_first_cong_set: "set seen = set seen' \<Longrightarrow> keep_first seen ps = keep_first seen' ps"
proof (induction ps arbitrary: seen seen')
  case Nil
  show ?case by simp
next
  case (Cons p ps)
  have "keep_first (pub_num_of p # seen) ps = keep_first (pub_num_of p # seen') ps"
    using Cons.prems by (intro Cons.IH) simp
  moreover have "keep_first seen ps = keep_first seen' ps"
    using Cons.prems by (intro Cons.IH)
  ultimately show ?case using Cons.prems by simp
qed

lemma unique_loop_keep_first:
  "unique_loop ps acc = acc @ map (\<lambda>p. (pub_num_of p, p)) (keep_first (map fst acc) ps)"
proof (induction ps arbitrary: acc)
  case Nil
  show ?case by simp
next
  case (Cons p ps)
  show ?case
  proof (cases "pub_num_of p \<noteq> [] \<and> pub_num_of p \<notin> set (map fst acc)")
    case True
    then have "unique_loop (p # ps) acc = unique_loop ps (acc @ [(pub_num_of p, p)])"
      by (simp add: Let_def dict_set_new)
    also have "\<dots> = (acc @ [(pub_num_of p, p)]) @
        map (\<lambda>p. (pub_num_of p, p)) (keep_first (map fst (acc @ [(pub_num_of p, p)])) ps)"
      by (rule Cons)
    also have "keep_first (map fst (acc @ [(pub_num_of p, p)])) ps =
               keep_first (pub_num_of p # map fst acc) ps"
      by (rule keep_first_cong_set) simp
    finally show ?thesis using True by (simp add: Let_def)
  next
    case False
    then show ?thesis using Cons [of acc] by (auto simp: Let_def)
  qed
qed


lemma remove_duplicates_keep_first: "remove_duplicates ps = keep_first [] ps"
  by (simp add: remove_duplicates_def unique_loop_keep_first [of ps "[]", simplified] comp_def)

lemma keep_first_keys_fresh:
  "r \<in> set (keep_first seen ps) \<Longrightarrow> pub_num_of r \<noteq> [] \<and> pub_num_of r \<notin> set seen \<and> r \<in> set ps"
proof (induction ps arbitrary: seen)
  case Nil
  then show ?case by simp
next
  case (Cons p ps)
  show ?case
  proof (cases "pub_num_of p \<noteq> [] \<and> pub_num_of p \<notin> set seen")
    case True
    with Cons.prems have "r = p \<or> r \<in> set (keep_first (pub_num_of p # seen) ps)" by simp
    then show ?thesis
    proof
      assume "r = p"
      with True show ?thesis by simp
    next
      assume "r \<in> set (keep_first (pub_num_of p # seen) ps)"
      from Cons.IH [OF this] show ?thesis by simp
    qed
  next
    case False
    with Cons.prems have "r \<in> set (keep_first seen ps)" by auto
    from Cons.IH [OF this] show ?thesis by simp
  qed
qed

lemma keep_first_distinct: "distinct (map pub_num_of (keep_first seen ps))"
proof (induction ps arbitrary: seen)
  case Nil
  show ?case by simp
next
  case (Cons p ps)
  show ?case
  proof (cases "pub_num_of p \<noteq> [] \<and> pub_num_of p \<notin> set seen")
    case True
    have "pub_num_of p \<notin> pub_num_of ` set (keep_first (pub_num_of p # seen) ps)"
    proof
      assume "pub_num_of p \<in> pub_num_of ` set (keep_first (pub_num_of p # seen) ps)"
      then obtain r where r: "r \<in> set (keep_first (pub_num_of p # seen) ps)"
        and "pub_num_of r = pub_num_of p" by auto
      with keep_first_keys_fresh [OF r] show False by simp
    qed
    with True Cons [of "pub_num_of p # seen"] show ?thesis by simp
  next
    case False
    with Cons [of seen] show ?thesis by auto
  qed
qed

lemma keep_first_keys:
  "set (map pub_num_of (keep_first seen ps)) =
   {k \<in> pub_num_of ` set ps. k \<noteq> [] \<and> k \<notin> set seen}"
proof (induction ps arbitrary: seen)
  case Nil
  show ?case by simp
next
  case (Cons p ps)
  show ?case using Cons [of seen] Cons [of "pub_num_of p # seen"] by auto
qed

lemma keep_first_find:
  "r \<in> set (keep_first seen ps) \<Longrightarrow> find (\<lambda>p. pub_num_of p = pub_num_of r) ps = Some r"
proof (induction ps arbitrary: seen)
  case Nil
  then show ?case by simp
next
  case (Cons p ps)
  show ?case
  proof (cases "pub_num_of p \<noteq> [] \<and> pub_num_of p \<notin> set seen")
    case True
    show ?thesis
    proof (cases "r = p")
      case True
      then show ?thesis by simp
    next
      case False
      with Cons.prems True have r: "r \<in> set (keep_first (pub_num_of p # seen) ps)" by simp
      then have "pub_num_of r \<noteq> pub_num_of p" using keep_first_keys_fresh [OF r] by auto
      then show ?thesis using Cons.IH [OF r] by simp
    qed
  next
    case False
    with Cons.prems have r: "r \<in> set (keep_first seen ps)" by auto
    then have "pub_num_of r \<noteq> pub_num_of p" using keep_first_keys_fresh [OF r] False by auto
    then show ?thesis using Cons.IH [OF r] by simp
  qed
qed

lemma keep_first_subseq: "subseq (keep_first seen ps) ps"
  by (induction ps arbitrary: seen) auto

lemma agrupar_loop_distinct:
  "distinct (map pub_num_of ps) \<Longrightarrow> \<forall>p \<in> set ps. pub_num_of p \<noteq> [] \<Longrightarrow>
   \<forall>p \<in> set ps. pub_num_of p \<notin> set (map fst acc) \<Longrightarrow>
   agrupar_loop ps acc = acc @ map (\<lambda>p. (pub_num_of p, p)) ps"
proof (induction ps arbitrary: acc)
  case Nil
  show ?case by simp
next
  case (Cons p ps)
  have "agrupar_loop (p # ps) acc = agrupar_loop ps (acc @ [(pub_num_of p, p)])"
    using Cons.prems by (simp add: Let_def dict_set_new)
  also have "\<dots> = (acc @ [(pub_num_of p, p)]) @ map (\<lambda>p. (pub_num_of p, p)) ps"
  proof (rule Cons.IH)
    show "distinct (map pub_num_of ps)" using Cons.prems(1) by simp
    show "\<forall>p \<in> set ps. pub_num_of p \<noteq> []" using Cons.prems(2) by simp
    show "\<forall>q \<in> set ps. pub_num_of q \<notin> set (map fst (acc @ [(pub_num_of p, p)]))"
    proof
      fix q assume q: "q \<in> set ps"
      have "pub_num_of p \<notin> pub_num_of ` set ps" using Cons.prems(1) by simp
      then have "pub_num_of q \<noteq> pub_num_of p" using q by (metis imageI)
      moreover have "pub_num_of q \<notin> set (map fst acc)" using Cons.prems(3) q by simp
      ultimately show "pub_num_of q \<notin> set (map fst (acc @ [(pub_num_of p, p)]))" by simp
    qed
  qed
  finally show ?case by simp
qed


text \<open>
  C6. The loop that removes duplicates keeps, in the order of the input, each record that
  has a publication number no earlier record had: the publication numbers of the result
  are distinct, they are the non-empty publication numbers of the input, every record of
  the result is the first record of the input with its publication number, and the result
  is a subsequence of the input. Two records sharing a publication number collapse to the
  first. Grouping the result by publication number keeps every record of it.
\<close>

theorem remove_duplicates_first_wins:
  "remove_duplicates ps = keep_first [] ps \<and>
   distinct (map pub_num_of (remove_duplicates ps)) \<and>
   set (map pub_num_of (remove_duplicates ps)) = {k \<in> pub_num_of ` set ps. k \<noteq> []} \<and>
   (\<forall>r \<in> set (remove_duplicates ps). find (\<lambda>p. pub_num_of p = pub_num_of r) ps = Some r) \<and>
   subseq (remove_duplicates ps) ps \<and>
   (pub_num_of a = pub_num_of b \<and> pub_num_of a \<noteq> [] \<longrightarrow> remove_duplicates [a, b] = [a]) \<and>
   agrupar_por_publication_number (remove_duplicates ps) =
     map (\<lambda>p. (pub_num_of p, p)) (remove_duplicates ps)"
proof -
  have k: "set (map pub_num_of (keep_first [] ps)) = {k \<in> pub_num_of ` set ps. k \<noteq> []}"
    using keep_first_keys [of "[]" ps] by simp
  have f: "\<forall>r \<in> set (keep_first [] ps). find (\<lambda>p. pub_num_of p = pub_num_of r) ps = Some r"
    using keep_first_find [of _ "[]" ps] by blast
  have two: "remove_duplicates [a, b] = [a]" if "pub_num_of a = pub_num_of b" "pub_num_of a \<noteq> []"
    using that by (simp add: remove_duplicates_keep_first)
  have ne: "\<forall>p \<in> set (keep_first [] ps). pub_num_of p \<noteq> []"
    using keep_first_keys_fresh [of _ "[]" ps] by blast
  have g: "agrupar_por_publication_number (keep_first [] ps) =
           map (\<lambda>p. (pub_num_of p, p)) (keep_first [] ps)"
    unfolding agrupar_por_publication_number_def
    using agrupar_loop_distinct [of "keep_first [] ps" "[]"] keep_first_distinct [of "[]" ps] ne
    by simp
  show ?thesis
    unfolding remove_duplicates_keep_first
    using k f g two [unfolded remove_duplicates_keep_first] keep_first_distinct [of "[]" ps]
      keep_first_subseq [of "[]" ps]
    by blast
qed

theorem remove_duplicates_first_wins_witness:
  "remove_duplicates
     [\<lparr>publicationNumber = Some ''WO2023123456A1'', patent_title = Some ''First seen'',
       other_fields = []\<rparr>,
      \<lparr>publicationNumber = Some ''WO2023123456A1'', patent_title = Some ''Seen later'',
       other_fields = []\<rparr>] =
     [\<lparr>publicationNumber = Some ''WO2023123456A1'', patent_title = Some ''First seen'',
       other_fields = []\<rparr>]"
proof -
  let ?a = "\<lparr>publicationNumber = Some ''WO2023123456A1'', patent_title = Some ''First seen'',
       other_fields = []\<rparr>"
  let ?b = "\<lparr>publicationNumber = Some ''WO2023123456A1'', patent_title = Some ''Seen later'',
       other_fields = []\<rparr>"
  have "pub_num_of ?a = pub_num_of ?b \<and> pub_num_of ?a \<noteq> []" by (simp add: pub_num_of_def)
  then show ?thesis using remove_duplicates_first_wins [of "[]" ?a ?b] by blast
qed

text \<open>
  \<open>agrupar_por_publication_number\<close> on its own overwrites: of two records sharing a
  publication number it keeps the later one, at the place of the first. In \<open>main\<close> it is
  applied to the list without duplicates.
\<close>

lemma agrupar_last_wins:
  "pub_num_of a = pub_num_of b \<Longrightarrow> pub_num_of a \<noteq> [] \<Longrightarrow>
   agrupar_por_publication_number [a, b] = [(pub_num_of a, b)]"
  by (simp add: agrupar_por_publication_number_def Let_def)

section \<open>Properties of the paginated crawl\<close>

lemma validate_all_valid:
  "\<forall>p \<in> set ps. validate_patent p \<Longrightarrow> int (length acc) < limite \<Longrightarrow>
   validate_all limite ps acc = acc @ take (nat limite - length acc) ps"
proof (induction ps arbitrary: acc)
  case Nil
  show ?case by simp
next
  case (Cons p ps)
  show ?case
  proof (cases "int (length (acc @ [p])) \<ge> limite")
    case True
    with Cons.prems have "nat limite - length acc = 1" by simp
    with True Cons.prems show ?thesis by simp
  next
    case False
    then have "validate_all limite (p # ps) acc = validate_all limite ps (acc @ [p])"
      using Cons.prems by simp
    also have "\<dots> = (acc @ [p]) @ take (nat limite - length (acc @ [p])) ps"
      using Cons.prems False by (intro Cons.IH) simp_all
    also have "\<dots> = acc @ take (nat limite - length acc) (p # ps)"
      using False by (simp add: take_Cons' )
    finally show ?thesis .
  qed
qed

lemma paginate_three_pages:
  assumes "length first_page = 10" "driver 1 = NextPage p2" "length p2 = 10"
    "driver 2 = NextPage p3" "length p3 = 10"
  shows "paginate driver 25 first_page 1 = (first_page @ p2 @ p3, 3)"
proof -
  have "paginate driver 25 first_page 1 = paginate driver 25 (first_page @ p2) 2"
    using assms by (subst paginate.simps) (simp add: max_paginas_def numeral_2_eq_2)
  also have "\<dots> = (first_page @ p2 @ p3, 3)"
    using assms by (subst paginate.simps) (simp add: max_paginas_def numeral_3_eq_3 numeral_2_eq_2)
  finally show ?thesis .
qed

text \<open>
  C5. With limit 25, ten patents on the first page and ten on each of the next two pages
  that the next button loads, the crawl reads three pages, holds thirty patents and
  returns the first twenty-five of them; when all of them are valid, \<open>buscar_patentes\<close>
  returns the same twenty-five.
\<close>

theorem crawl_truncates_to_limit:
  "length first_page = 10 \<and> driver 1 = NextPage p2 \<and> length p2 = 10 \<and>
   driver 2 = NextPage p3 \<and> length p3 = 10 \<longrightarrow>
     paginate driver 25 first_page 1 = (first_page @ p2 @ p3, 3) \<and>
     buscar_com_selenium driver 25 first_page = (take 25 (first_page @ p2 @ p3), 3) \<and>
     length (fst (buscar_com_selenium driver 25 first_page)) = 25 \<and>
     ((\<forall>p \<in> set (first_page @ p2 @ p3). validate_patent p) \<longrightarrow>
        buscar_patentes driver 25 first_page = take 25 (first_page @ p2 @ p3) \<and>
        length (buscar_patentes driver 25 first_page) = 25)"
proof (intro impI, elim conjE)
  assume a: "length first_page = 10" "driver 1 = NextPage p2" "length p2 = 10"
    "driver 2 = NextPage p3" "length p3 = 10"
  have p: "paginate driver 25 first_page 1 = (first_page @ p2 @ p3, 3)"
    using a by (rule paginate_three_pages)
  have b: "buscar_com_selenium driver 25 first_page = (take 25 (first_page @ p2 @ p3), 3)"
    unfolding buscar_com_selenium_def p by (simp add: slice_to_def)
  have l: "length (fst (buscar_com_selenium driver 25 first_page)) = 25"
    using a by (simp add: b)
  have v: "buscar_patentes driver 25 first_page = take 25 (first_page @ p2 @ p3) \<and>
        length (buscar_patentes driver 25 first_page) = 25"
    if "\<forall>p \<in> set (first_page @ p2 @ p3). validate_patent p"
  proof -
    have "\<forall>p \<in> set (take 25 (first_page @ p2 @ p3)). validate_patent p"
      using that by (meson in_set_takeD)
    then have "validate_all 25 (take 25 (first_page @ p2 @ p3)) [] =
               [] @ take (nat 25 - length ([]::patent list)) (take 25 (first_page @ p2 @ p3))"
      by (intro validate_all_valid) simp_all
    then show ?thesis using a by (simp add: buscar_patentes_def b)
  qed
  show "paginate driver 25 first_page 1 = (first_page @ p2 @ p3, 3) \<and>
     buscar_com_selenium driver 25 first_page = (take 25 (first_page @ p2 @ p3), 3) \<and>
     length (fst (buscar_com_selenium driver 25 first_page)) = 25 \<and>
     ((\<forall>p \<in> set (first_page @ p2 @ p3). validate_patent p) \<longrightarrow>
        buscar_patentes driver 25 first_page = take 25 (first_page @ p2 @ p3) \<and>
        length (buscar_patentes driver 25 first_page) = 25)"
    using p b l v by blast
qed


theorem crawl_truncates_to_limit_witness:
  "validate_patent \<lparr>publicationNumber = Some ''WO2023123456A1'',
                    patent_title = Some ''Aspirin salts'', other_fields = []\<rparr> \<and>
   snd (buscar_com_selenium
          (\<lambda>n. NextPage (replicate 10 \<lparr>publicationNumber = Some ''WO2023123456A1'',
                    patent_title = Some ''Aspirin salts'', other_fields = []\<rparr>)) 25
          (replicate 10 \<lparr>publicationNumber = Some ''WO2023123456A1'',
                    patent_title = Some ''Aspirin salts'', other_fields = []\<rparr>)) = 3 \<and>
   length (fst (buscar_com_selenium
          (\<lambda>n. NextPage (replicate 10 \<lparr>publicationNumber = Some ''WO2023123456A1'',
                    patent_title = Some ''Aspirin salts'', other_fields = []\<rparr>)) 25
          (replicate 10 \<lparr>publicationNumber = Some ''WO2023123456A1'',
                    patent_title = Some ''Aspirin salts'', other_fields = []\<rparr>))) = 25 \<and>
   length (buscar_patentes
          (\<lambda>n. NextPage (replicate 10 \<lparr>publicationNumber = Some ''WO2023123456A1'',
                    patent_title = Some ''Aspirin salts'', other_fields = []\<rparr>)) 25
          (replicate 10 \<lparr>publicationNumber = Some ''WO2023123456A1'',
                    patent_title = Some ''Aspirin salts'', other_fields = []\<rparr>)) = 25"
proof -
  let ?p = "\<lparr>publicationNumber = Some ''WO2023123456A1'',
            patent_title = Some ''Aspirin salts'', other_fields = []\<rparr>"
  let ?page = "replicate 10 ?p"
  let ?driver = "\<lambda>n::nat. NextPage ?page"
  have v: "validate_patent ?p"
    by (simp add: validate_patent_def truthy_def MIN_TITLE_LENGTH_def)
  have h: "length ?page = 10 \<and> ?driver 1 = NextPage ?page \<and> length ?page = 10 \<and>
           ?driver 2 = NextPage ?page \<and> length ?page = 10"
    by simp
  have all: "\<forall>p \<in> set (?page @ ?page @ ?page). validate_patent p"
    using v by simp
  note c = crawl_truncates_to_limit [of ?page ?driver ?page ?page, rule_format, OF h]
  have 1: "snd (buscar_com_selenium ?driver 25 ?page) = 3" using c by simp
  have 2: "length (fst (buscar_com_selenium ?driver 25 ?page)) = 25" using c by blast
  have 3: "length (buscar_patentes ?driver 25 ?page) = 25" using c all by blast
  show ?thesis using v 1 2 3 by blast
qed

end
